theory Spec2Isabelle
  imports Main
begin

section \<open>Python values, errors and library functions\<close>

text \<open>
  The program is \<^verbatim>\<open>src/twitter/extract_twitter_archive.py\<close>. Its input is the value that
  \<^verbatim>\<open>json.loads\<close> returns, so the model works on a datatype of JSON values: \<^verbatim>\<open>None\<close>,
  booleans, integers, strings, lists and dicts (a dict is the list of its items in
  insertion order, read through \<open>map_of\<close>). JSON numbers with a fraction or an exponent
  (Python floats) are outside the model. A Python \<^verbatim>\<open>str\<close> is a HOL string, one character
  per code point.

  Every exception the code can raise is a value \<open>Inl e\<close> of the result type.
\<close>

datatype py_error =
  TypeError | KeyError | AttributeError | ValueError | IndexError | JSONDecodeError

datatype json =
  JNull | JBool bool | JInt int | JStr string | JArr "json list" | JObj "(string \<times> json) list"

definition rbind :: "'e + 'a \<Rightarrow> ('a \<Rightarrow> 'e + 'b) \<Rightarrow> 'e + 'b" where
  "rbind m f = (case m of Inl e \<Rightarrow> Inl e | Inr x \<Rightarrow> f x)"

fun map_result :: "('a \<Rightarrow> 'e + 'b) \<Rightarrow> 'a list \<Rightarrow> 'e + 'b list" where
  "map_result f [] = Inr []"
| "map_result f (x # xs) = rbind (f x) (\<lambda>y. rbind (map_result f xs) (\<lambda>ys. Inr (y # ys)))"

text \<open>
  Functions of the Python standard library whose behaviour is table driven or format
  driven are parameters of the model: the theorems hold for every behaviour of them.
  \<open>None\<close> stands for a raised exception. The type \<open>'dt\<close> is \<^verbatim>\<open>datetime\<close>.
  \<^item> \<open>strptime s\<close> is \<^verbatim>\<open>datetime.strptime(s, "%a %b %d %H:%M:%S %z %Y")\<close>;
  \<^item> \<open>dt_year d\<close> is \<^verbatim>\<open>d.year\<close>, \<open>strftime_ym d\<close> is \<^verbatim>\<open>d.strftime("%Y-%m")\<close> and
    \<open>strftime_ymd d\<close> is \<^verbatim>\<open>d.strftime("%Y-%m-%d")\<close>;
  \<^item> \<open>dt_instant d\<close> is the instant that the comparison of two aware datetimes compares;
  \<^item> \<open>urlparse_netloc s\<close> is \<^verbatim>\<open>urlparse(s).netloc\<close>;
  \<^item> \<open>str_lower s\<close> is \<^verbatim>\<open>s.lower()\<close>.
\<close>

record 'dt pylib =
  strptime :: "string \<Rightarrow> 'dt option"
  dt_year :: "'dt \<Rightarrow> int"
  strftime_ym :: "'dt \<Rightarrow> string"
  strftime_ymd :: "'dt \<Rightarrow> string"
  dt_instant :: "'dt \<Rightarrow> int"
  urlparse_netloc :: "string \<Rightarrow> string option"
  str_lower :: "string \<Rightarrow> string"

subsection \<open>Dicts, sequences and truth values\<close>

definition subscript :: "json \<Rightarrow> string \<Rightarrow> py_error + json" where
  \<comment> \<open>\<^verbatim>\<open>v[k]\<close> for a string \<open>k\<close>\<close>
  "subscript v k =
     (case v of
        JObj kv \<Rightarrow> (case map_of kv k of Some x \<Rightarrow> Inr x | None \<Rightarrow> Inl KeyError)
      | _ \<Rightarrow> Inl TypeError)"

definition py_get :: "json \<Rightarrow> string \<Rightarrow> json \<Rightarrow> py_error + json" where
  \<comment> \<open>\<^verbatim>\<open>v.get(k, d)\<close>\<close>
  "py_get v k d =
     (case v of
        JObj kv \<Rightarrow> Inr (case map_of kv k of Some x \<Rightarrow> x | None \<Rightarrow> d)
      | _ \<Rightarrow> Inl AttributeError)"

definition startswith :: "string \<Rightarrow> string \<Rightarrow> bool" where
  \<comment> \<open>\<^verbatim>\<open>s.startswith(p)\<close>\<close>
  "startswith s p = (take (length p) s = p)"

fun str_in :: "string \<Rightarrow> string \<Rightarrow> bool" where
  \<comment> \<open>\<^verbatim>\<open>sub in s\<close> on strings\<close>
  "str_in sub [] = (sub = [])"
| "str_in sub (c # cs) = (startswith (c # cs) sub \<or> str_in sub cs)"

fun str_replace :: "string \<Rightarrow> string \<Rightarrow> string \<Rightarrow> string" where
  \<comment> \<open>\<^verbatim>\<open>s.replace(old, new)\<close>: every occurrence, left to right, without overlap\<close>
  "str_replace old new [] = (if old = [] then new else [])"
| "str_replace old new (c # cs) =
     (if old = [] then new @ c # str_replace old new cs
      else if startswith (c # cs) old
        then new @ str_replace old new (drop (length old - 1) cs)
      else c # str_replace old new cs)"

definition py_in :: "string \<Rightarrow> json \<Rightarrow> py_error + bool" where
  \<comment> \<open>\<^verbatim>\<open>k in v\<close> for a string \<open>k\<close>\<close>
  "py_in k v =
     (case v of
        JObj kv \<Rightarrow> Inr (k \<in> set (map fst kv))
      | JArr xs \<Rightarrow> Inr (JStr k \<in> set xs)
      | JStr s \<Rightarrow> Inr (str_in k s)
      | _ \<Rightarrow> Inl TypeError)"

definition py_iter :: "json \<Rightarrow> py_error + json list" where
  \<comment> \<open>the elements a \<^verbatim>\<open>for\<close> loop over \<open>v\<close> visits\<close>
  "py_iter v =
     (case v of
        JArr xs \<Rightarrow> Inr xs
      | JStr s \<Rightarrow> Inr (map (\<lambda>c. JStr [c]) s)
      | JObj kv \<Rightarrow> Inr (map JStr (remdups (map fst kv)))
      | _ \<Rightarrow> Inl TypeError)"

definition py_len :: "json \<Rightarrow> py_error + int" where
  "py_len v =
     (case v of
        JArr xs \<Rightarrow> Inr (int (length xs))
      | JStr s \<Rightarrow> Inr (int (length s))
      | JObj kv \<Rightarrow> Inr (int (length (remdups (map fst kv))))
      | _ \<Rightarrow> Inl TypeError)"

definition py_truthy :: "json \<Rightarrow> bool" where
  "py_truthy v =
     (case v of
        JNull \<Rightarrow> False
      | JBool b \<Rightarrow> b
      | JInt n \<Rightarrow> n \<noteq> 0
      | JStr s \<Rightarrow> s \<noteq> []
      | JArr xs \<Rightarrow> xs \<noteq> []
      | JObj kv \<Rightarrow> kv \<noteq> [])"

definition hashable :: "json \<Rightarrow> bool" where
  "hashable v = (case v of JArr _ \<Rightarrow> False | JObj _ \<Rightarrow> False | _ \<Rightarrow> True)"

definition py_key :: "json \<Rightarrow> json" where
  "py_key v = (case v of JBool b \<Rightarrow> JInt (if b then 1 else 0) | _ \<Rightarrow> v)"

definition py_eq :: "json \<Rightarrow> json \<Rightarrow> bool" where
  \<comment> \<open>\<^verbatim>\<open>==\<close> on hashable values: \<^verbatim>\<open>True == 1\<close> and \<^verbatim>\<open>False == 0\<close>\<close>
  "py_eq a b = (py_key a = py_key b)"

subsection \<open>Conversion between integers and strings\<close>

definition digit_char :: "nat \<Rightarrow> char" where
  "digit_char n = char_of (48 + n)"

fun dec_str :: "nat \<Rightarrow> string" where
  "dec_str n = (if n < 10 then [digit_char n] else dec_str (n div 10) @ [digit_char (n mod 10)])"

declare dec_str.simps [simp del]

definition py_str_int :: "int \<Rightarrow> string" where
  \<comment> \<open>\<^verbatim>\<open>str(i)\<close>\<close>
  "py_str_int i = (if i < 0 then CHR ''-'' # dec_str (nat (- i)) else dec_str (nat i))"

definition is_digit :: "char \<Rightarrow> bool" where
  "is_digit c = (48 \<le> (of_char c :: nat) \<and> (of_char c :: nat) \<le> 57)"

definition digit_val :: "char \<Rightarrow> nat" where
  "digit_val c = of_char c - 48"

definition is_space :: "char \<Rightarrow> bool" where
  \<comment> \<open>the white space that \<^verbatim>\<open>int\<close> strips: tab to carriage return and the space, and of the
      characters from 127 on those that \<^verbatim>\<open>str.isspace\<close> accepts (here U+0085 and U+00A0).
      The separators U+001C to U+001F are not stripped\<close>
  "is_space c = ((of_char c :: nat) \<in> set [9, 10, 11, 12, 13, 32, 133, 160])"

definition int_max_str_digits :: nat where
  \<comment> \<open>\<^verbatim>\<open>sys.get_int_max_str_digits()\<close>, the default of CPython from version 3.11 on\<close>
  "int_max_str_digits = 4300"

fun parse_dec :: "bool \<Rightarrow> nat \<Rightarrow> string \<Rightarrow> nat option" where
  \<comment> \<open>digits with single underscores between them; the flag says a digit must come next\<close>
  "parse_dec need acc [] = (if need then None else Some acc)"
| "parse_dec need acc (c # cs) =
     (if is_digit c then parse_dec False (10 * acc + digit_val c) cs
      else if c = CHR ''_'' \<and> \<not> need then parse_dec True acc cs
      else None)"

definition dec_literal :: "string \<Rightarrow> nat option" where
  \<comment> \<open>a decimal literal of at most \<open>int_max_str_digits\<close> digits, leading zeros counted;
      with more digits \<^verbatim>\<open>int\<close> raises \<^verbatim>\<open>ValueError\<close>\<close>
  "dec_literal s =
     (if int_max_str_digits < length (filter is_digit s) then None else parse_dec True 0 s)"

definition int_of_str :: "string \<Rightarrow> int option" where
  \<comment> \<open>\<^verbatim>\<open>int(s)\<close> in base 10: white space around, an optional sign, digits;
      \<open>None\<close> where \<^verbatim>\<open>int\<close> raises \<^verbatim>\<open>ValueError\<close>\<close>
  "int_of_str s =
     (case rev (dropWhile is_space (rev (dropWhile is_space s))) of
        [] \<Rightarrow> None
      | c # cs \<Rightarrow>
          if c = CHR ''-'' then map_option (\<lambda>n. - int n) (dec_literal cs)
          else if c = CHR ''+'' then map_option int (dec_literal cs)
          else map_option int (dec_literal (c # cs)))"

definition py_int :: "json \<Rightarrow> py_error + int" where
  \<comment> \<open>\<^verbatim>\<open>int(v)\<close>\<close>
  "py_int v =
     (case v of
        JInt n \<Rightarrow> Inr n
      | JBool b \<Rightarrow> Inr (if b then 1 else 0)
      | JStr s \<Rightarrow> (case int_of_str s of Some n \<Rightarrow> Inr n | None \<Rightarrow> Inl ValueError)
      | _ \<Rightarrow> Inl TypeError)"


section \<open>Accumulators\<close>

text \<open>
  A \<^verbatim>\<open>Counter\<close> and a plain dict are the lists of their items in insertion order.
  \<open>counter_incr eq k c\<close> is \<^verbatim>\<open>c[k] += 1\<close>, with \<open>eq\<close> the equality of keys: a key that is
  present keeps its place, a new key goes to the end with count 1.
  \<open>dict_upd k d f m\<close> is \<^verbatim>\<open>m.setdefault(k, d)\<close> followed by an update \<open>f\<close> of \<^verbatim>\<open>m[k]\<close>.
\<close>

type_synonym 'k counter = "('k \<times> int) list"

fun counter_incr :: "('k \<Rightarrow> 'k \<Rightarrow> bool) \<Rightarrow> 'k \<Rightarrow> 'k counter \<Rightarrow> 'k counter" where
  "counter_incr eq k [] = [(k, 1)]"
| "counter_incr eq k ((k', n) # c) =
     (if eq k' k then (k', n + 1) # c else (k', n) # counter_incr eq k c)"

fun dict_upd :: "string \<Rightarrow> 'v \<Rightarrow> ('v \<Rightarrow> 'v) \<Rightarrow> (string \<times> 'v) list \<Rightarrow> (string \<times> 'v) list" where
  "dict_upd k d f [] = [(k, f d)]"
| "dict_upd k d f ((k', v) # m) =
     (if k' = k then (k', f v) # m else (k', v) # dict_upd k d f m)"

definition most_common :: "nat \<Rightarrow> 'k counter \<Rightarrow> 'k counter" where
  \<comment> \<open>\<^verbatim>\<open>c.most_common(n)\<close>, that is \<^verbatim>\<open>sorted(c.items(), key=itemgetter(1), reverse=True)[:n]\<close>;
      the sort is stable\<close>
  "most_common n c = take n (sort_key (\<lambda>kc. - snd kc) c)"

record mvol =
  m_total :: int
  m_original :: int
  m_retweet :: int

record yvol =
  y_total :: int
  y_original :: int
  y_retweet :: int
  y_with_media :: int
  y_favorites :: int
  y_retweet_count :: int

record proj =
  r_date :: string
  r_text :: string
  r_favorites :: int
  r_retweets :: int
  r_is_retweet :: bool
  r_has_media :: bool
  r_url_count :: int

record acc =
  all_hashtags :: "string counter"
  all_mentions :: "json counter"
  all_domains :: "string counter"
  lang_counts :: "json counter"
  monthly_volume :: "(string \<times> mvol) list"
  yearly_volume :: "(string \<times> yvol) list"
  hashtags_by_year :: "(string \<times> string counter) list"
  mentions_by_year :: "(string \<times> json counter) list"
  domains_by_year :: "(string \<times> string counter) list"
  records :: "proj list"

definition empty_acc :: acc where
  "empty_acc =
     \<lparr>all_hashtags = [], all_mentions = [], all_domains = [], lang_counts = [],
      monthly_volume = [], yearly_volume = [], hashtags_by_year = [],
      mentions_by_year = [], domains_by_year = [], records = []\<rparr>"

section \<open>The loop body of \<open>process_tweets\<close>\<close>

definition created_at :: "'dt pylib \<Rightarrow> json \<Rightarrow> py_error + 'dt" where
  \<comment> \<open>line 70\<close>
  "created_at L tw =
     rbind (subscript tw ''created_at'') (\<lambda>v.
       case v of
         JStr s \<Rightarrow> (case strptime L s of Some dt \<Rightarrow> Inr dt | None \<Rightarrow> Inl ValueError)
       | _ \<Rightarrow> Inl TypeError)"

definition full_text :: "json \<Rightarrow> py_error + string" where
  \<comment> \<open>\<^verbatim>\<open>tw["full_text"]\<close> where a string method is called on it\<close>
  "full_text tw =
     rbind (subscript tw ''full_text'') (\<lambda>v.
       case v of JStr s \<Rightarrow> Inr s | _ \<Rightarrow> Inl AttributeError)"

definition entity_list :: "json \<Rightarrow> string \<Rightarrow> py_error + json" where
  \<comment> \<open>\<^verbatim>\<open>tw.get("entities", {}).get(name, [])\<close>\<close>
  "entity_list tw name =
     rbind (py_get tw ''entities'' (JObj [])) (\<lambda>e. py_get e name (JArr []))"

definition has_media :: "json \<Rightarrow> py_error + bool" where
  \<comment> \<open>lines 76 to 79; \<^verbatim>\<open>or\<close> does not evaluate its second operand after a true first one\<close>
  "has_media tw =
     rbind (py_in ''extended_entities'' tw) (\<lambda>b.
       if b then Inr True
       else rbind (entity_list tw ''media'') (\<lambda>m.
              rbind (py_len m) (\<lambda>n. Inr (n > 0))))"

definition hashtags_of :: "'dt pylib \<Rightarrow> json \<Rightarrow> py_error + string list" where
  \<comment> \<open>lines 82 to 84\<close>
  "hashtags_of L tw =
     rbind (entity_list tw ''hashtags'') (\<lambda>hs.
       rbind (py_iter hs) (\<lambda>xs.
         map_result (\<lambda>h.
           rbind (subscript h ''text'') (\<lambda>v.
             case v of JStr s \<Rightarrow> Inr (str_lower L s) | _ \<Rightarrow> Inl AttributeError)) xs))"

definition count_hashtag :: "string \<Rightarrow> string \<Rightarrow> acc \<Rightarrow> acc" where
  \<comment> \<open>lines 86 and 87\<close>
  "count_hashtag year h a =
     a\<lparr>all_hashtags := counter_incr (=) h (all_hashtags a),
       hashtags_by_year := dict_upd year [] (counter_incr (=) h) (hashtags_by_year a)\<rparr>"

definition mentions_of :: "json \<Rightarrow> py_error + json list" where
  \<comment> \<open>lines 90 to 93\<close>
  "mentions_of tw =
     rbind (entity_list tw ''user_mentions'') (\<lambda>ms.
       rbind (py_iter ms) (\<lambda>xs. map_result (\<lambda>m. subscript m ''screen_name'') xs))"

fun count_mentions :: "string \<Rightarrow> json list \<Rightarrow> acc \<Rightarrow> py_error + acc" where
  \<comment> \<open>lines 94 to 96; a list or a dict is not hashable\<close>
  "count_mentions year [] a = Inr a"
| "count_mentions year (m # ms) a =
     (if hashable m
      then count_mentions year ms
             (a\<lparr>all_mentions := counter_incr py_eq m (all_mentions a),
                mentions_by_year :=
                  dict_upd year [] (counter_incr py_eq m) (mentions_by_year a)\<rparr>)
      else Inl TypeError)"

definition url_domain :: "'dt pylib \<Rightarrow> json \<Rightarrow> string option" where
  \<comment> \<open>lines 103 to 106 and 110: the domain that is counted for the value \<open>expanded\<close>, if any;
      \<^verbatim>\<open>urlparse\<close> raises on a value that is not a string, and the handler swallows it\<close>
  "url_domain L expanded =
     (if py_truthy expanded then
        (case expanded of
           JStr s \<Rightarrow>
             (case urlparse_netloc L s of
                None \<Rightarrow> None
              | Some netloc \<Rightarrow>
                  (let domain = str_replace ''www.'' '''' netloc
                   in if domain \<noteq> [] \<and> \<not> str_in ''twitter.com'' domain
                         \<and> \<not> str_in ''t.co'' domain
                      then Some domain else None))
         | _ \<Rightarrow> None)
      else None)"

definition count_domain :: "string \<Rightarrow> string \<Rightarrow> acc \<Rightarrow> acc" where
  \<comment> \<open>lines 107 and 108\<close>
  "count_domain year d a =
     a\<lparr>all_domains := counter_incr (=) d (all_domains a),
       domains_by_year := dict_upd year [] (counter_incr (=) d) (domains_by_year a)\<rparr>"

fun count_urls :: "'dt pylib \<Rightarrow> string \<Rightarrow> json list \<Rightarrow> acc \<Rightarrow> int \<Rightarrow> py_error + acc \<times> int" where
  \<comment> \<open>lines 101 to 111, with \<open>url_count\<close> as the last argument\<close>
  "count_urls L year [] a url_count = Inr (a, url_count)"
| "count_urls L year (u # us) a url_count =
     rbind (py_get u ''url'' (JStr '''')) (\<lambda>d.
       rbind (py_get u ''expanded_url'' d) (\<lambda>expanded.
         case url_domain L expanded of
           Some domain \<Rightarrow> count_urls L year us (count_domain year domain a) (url_count + 1)
         | None \<Rightarrow> count_urls L year us a url_count))"

definition count_lang :: "json \<Rightarrow> acc \<Rightarrow> py_error + acc" where
  \<comment> \<open>line 114\<close>
  "count_lang tw a =
     rbind (py_get tw ''lang'' (JStr ''und'')) (\<lambda>l.
       if hashable l then Inr (a\<lparr>lang_counts := counter_incr py_eq l (lang_counts a)\<rparr>)
       else Inl TypeError)"

definition monthly_bump :: "bool \<Rightarrow> mvol \<Rightarrow> mvol" where
  \<comment> \<open>lines 120 to 124\<close>
  "monthly_bump is_rt v =
     (let v = v\<lparr>m_total := m_total v + 1\<rparr>
      in if is_rt then v\<lparr>m_retweet := m_retweet v + 1\<rparr>
         else v\<lparr>m_original := m_original v + 1\<rparr>)"

definition yearly_bump :: "bool \<Rightarrow> bool \<Rightarrow> int \<Rightarrow> int \<Rightarrow> yvol \<Rightarrow> yvol" where
  \<comment> \<open>lines 138 to 146\<close>
  "yearly_bump is_rt media fav rt v =
     (let v = v\<lparr>y_total := y_total v + 1\<rparr>;
          v = (if is_rt then v\<lparr>y_retweet := y_retweet v + 1\<rparr>
               else v\<lparr>y_original := y_original v + 1\<rparr>);
          v = (if media then v\<lparr>y_with_media := y_with_media v + 1\<rparr> else v);
          v = v\<lparr>y_favorites := y_favorites v + fav\<rparr>
      in v\<lparr>y_retweet_count := y_retweet_count v + rt\<rparr>)"

definition engagement :: "json \<Rightarrow> py_error + int \<times> int" where
  \<comment> \<open>\<^verbatim>\<open>int(tw.get("favorite_count", 0))\<close> and \<^verbatim>\<open>int(tw.get("retweet_count", 0))\<close>,
      lines 145 and 146; lines 152 and 153 repeat them with the same result\<close>
  "engagement tw =
     rbind (py_get tw ''favorite_count'' (JInt 0)) (\<lambda>fc.
     rbind (py_int fc) (\<lambda>fav.
     rbind (py_get tw ''retweet_count'' (JInt 0)) (\<lambda>rc.
     rbind (py_int rc) (\<lambda>rt. Inr (fav, rt)))))"

definition process_tweet :: "'dt pylib \<Rightarrow> json \<Rightarrow> acc \<Rightarrow> py_error + acc" where
  \<comment> \<open>lines 69 to 158, in the order of the source\<close>
  "process_tweet L t a =
     rbind (subscript t ''tweet'') (\<lambda>tw.
     rbind (created_at L tw) (\<lambda>dt.
     let year = py_str_int (dt_year L dt); year_month = strftime_ym L dt in
     rbind (full_text tw) (\<lambda>text.
     let is_rt = startswith text ''RT @'' in
     rbind (has_media tw) (\<lambda>media.
     rbind (hashtags_of L tw) (\<lambda>hashtags.
     let a = fold (count_hashtag year) hashtags a in
     rbind (mentions_of tw) (\<lambda>mentions.
     rbind (count_mentions year mentions a) (\<lambda>a.
     rbind (entity_list tw ''urls'') (\<lambda>urls.
     rbind (py_iter urls) (\<lambda>us.
     rbind (count_urls L year us a 0) (\<lambda>(a, url_count).
     rbind (count_lang tw a) (\<lambda>a.
     let a = a\<lparr>monthly_volume :=
                 dict_upd year_month \<lparr>m_total = 0, m_original = 0, m_retweet = 0\<rparr>
                   (monthly_bump is_rt) (monthly_volume a)\<rparr> in
     rbind (engagement tw) (\<lambda>(fav, rt).
     Inr (a\<lparr>yearly_volume :=
               dict_upd year
                 \<lparr>y_total = 0, y_original = 0, y_retweet = 0, y_with_media = 0,
                  y_favorites = 0, y_retweet_count = 0\<rparr>
                 (yearly_bump is_rt media fav rt) (yearly_volume a),
             records :=
               records a @
                 [\<lparr>r_date = strftime_ymd L dt, r_text = take 200 text,
                   r_favorites = fav, r_retweets = rt, r_is_retweet = is_rt,
                   r_has_media = media, r_url_count = url_count\<rparr>]\<rparr>)))))))))))))"

fun process_loop :: "'dt pylib \<Rightarrow> json list \<Rightarrow> acc \<Rightarrow> py_error + acc" where
  \<comment> \<open>the loop of line 68: the first exception ends the run\<close>
  "process_loop L [] a = Inr a"
| "process_loop L (t # ts) a = rbind (process_tweet L t a) (process_loop L ts)"

section \<open>The report\<close>

record top_tweet =
  t_date :: string
  t_text :: string
  t_favorites :: int
  t_retweets :: int

record report =
  total_tweets :: int
  original_tweets :: int
  retweets :: int
  with_media :: int
  with_urls :: int
  unique_hashtags :: int
  unique_mentions :: int
  date_range :: "string \<times> string"
  top_hashtags :: "string counter"
  top_mentions :: "json counter"
  top_domains :: "string counter"
  languages :: "json counter"
  out_monthly_volume :: "(string \<times> mvol) list"
  out_yearly_volume :: "(string \<times> yvol) list"
  out_hashtags_by_year :: "(string \<times> string counter) list"
  out_mentions_by_year :: "(string \<times> json counter) list"
  out_domains_by_year :: "(string \<times> string counter) list"
  top_tweets_by_favorites :: "top_tweet list"
  top_tweets_by_retweets :: "top_tweet list"

definition top_of :: "proj \<Rightarrow> top_tweet" where
  "top_of r =
     \<lparr>t_date = r_date r, t_text = r_text r, t_favorites = r_favorites r,
      t_retweets = r_retweets r\<rparr>"

definition sorted_dates :: "'dt pylib \<Rightarrow> json list \<Rightarrow> py_error + 'dt list" where
  \<comment> \<open>lines 171 to 175\<close>
  "sorted_dates L tweets =
     rbind (map_result (\<lambda>t. rbind (subscript t ''tweet'') (created_at L)) tweets) (\<lambda>dates.
       Inr (sort_key (dt_instant L) dates))"

definition build_output :: "'dt pylib \<Rightarrow> json list \<Rightarrow> acc \<Rightarrow> py_error + report" where
  \<comment> \<open>lines 161 to 236; \<^verbatim>\<open>dates[0]\<close> raises on the empty list\<close>
  "build_output L tweets a =
     (let total = int (length (records a));
          originals = int (length (filter (\<lambda>r. \<not> r_is_retweet r) (records a)));
          media = int (length (filter r_has_media (records a)));
          urls = int (length (filter (\<lambda>r. r_url_count r > 0) (records a)));
          top_by_fav = take 20 (sort_key (\<lambda>r. - r_favorites r) (records a));
          top_by_rt = take 20 (sort_key (\<lambda>r. - r_retweets r) (records a))
      in rbind (sorted_dates L tweets) (\<lambda>dates.
           case dates of
             [] \<Rightarrow> Inl IndexError
           | d # ds \<Rightarrow>
               Inr \<lparr>total_tweets = total,
                    original_tweets = originals,
                    retweets = total - originals,
                    with_media = media,
                    with_urls = urls,
                    unique_hashtags = int (length (all_hashtags a)),
                    unique_mentions = int (length (all_mentions a)),
                    date_range = (strftime_ymd L d, strftime_ymd L (last (d # ds))),
                    top_hashtags = most_common 50 (all_hashtags a),
                    top_mentions = most_common 50 (all_mentions a),
                    top_domains = most_common 50 (all_domains a),
                    languages = most_common 20 (lang_counts a),
                    out_monthly_volume = monthly_volume a,
                    out_yearly_volume = yearly_volume a,
                    out_hashtags_by_year =
                      map (\<lambda>(y, c). (y, most_common 20 c)) (hashtags_by_year a),
                    out_mentions_by_year =
                      map (\<lambda>(y, c). (y, most_common 20 c)) (mentions_by_year a),
                    out_domains_by_year =
                      map (\<lambda>(y, c). (y, most_common 20 c)) (domains_by_year a),
                    top_tweets_by_favorites = map top_of top_by_fav,
                    top_tweets_by_retweets = map top_of top_by_rt\<rparr>))"

definition process_tweets :: "'dt pylib \<Rightarrow> json list \<Rightarrow> py_error + report" where
  \<comment> \<open>lines 56 to 236, on the list that \<open>load_twitter_js\<close> returned in line 54\<close>
  "process_tweets L tweets =
     rbind (process_loop L tweets empty_acc) (build_output L tweets)"

section \<open>The record loader\<close>

fun index_of :: "char \<Rightarrow> string \<Rightarrow> nat option" where
  \<comment> \<open>\<^verbatim>\<open>content.index(c)\<close>; \<open>None\<close> is the \<^verbatim>\<open>ValueError\<close>\<close>
  "index_of c [] = None"
| "index_of c (x # xs) = (if x = c then Some 0 else map_option Suc (index_of c xs))"

definition load_twitter_js :: "(string \<Rightarrow> json option) \<Rightarrow> string \<Rightarrow> py_error + json" where
  \<comment> \<open>lines 36 to 38 on the text \<open>content\<close> of the file; the first argument is
      \<^verbatim>\<open>json.loads\<close>, with \<open>None\<close> for a text that it rejects\<close>
  "load_twitter_js loads content =
     (case index_of CHR ''['' content of
        None \<Rightarrow> Inl ValueError
      | Some json_start \<Rightarrow>
          (case loads (drop json_start content) of
             None \<Rightarrow> Inl JSONDecodeError
           | Some v \<Rightarrow> Inr v))"

section \<open>An instance of the library functions\<close>

text \<open>
  For evaluations on concrete archives the library functions are instantiated on inputs in
  their common form, where the instance returns what CPython returns:
  \<^item> \<open>ref_strptime\<close> reads a timestamp as Twitter writes it,
    \<^verbatim>\<open>Wed Oct 10 20:19:24 +0000 2018\<close>, with offset \<^verbatim>\<open>+0000\<close>, a year from 1000 on
    and a day up to 28;
  \<^item> \<open>ref_netloc\<close> splits a URL of printable ASCII characters without brackets into an
    optional scheme and, after \<^verbatim>\<open>//\<close>, the network location up to the next
    \<^verbatim>\<open>/\<close>, \<^verbatim>\<open>?\<close> or \<^verbatim>\<open>#\<close>;
  \<^item> \<open>ref_lower\<close> maps the letters \<^verbatim>\<open>A\<close> to \<^verbatim>\<open>Z\<close> to lower case.
  Inputs outside these forms are not described by the instance.
\<close>

record datetime =
  d_year :: nat
  d_month :: nat
  d_day :: nat
  d_hour :: nat
  d_minute :: nat
  d_second :: nat

definition num_of :: "string \<Rightarrow> nat option" where
  "num_of s =
     (if s \<noteq> [] \<and> list_all is_digit s
      then Some (foldl (\<lambda>a c. 10 * a + digit_val c) 0 s) else None)"

definition month_names :: "string list" where
  "month_names =
     [''Jan'', ''Feb'', ''Mar'', ''Apr'', ''May'', ''Jun'',
      ''Jul'', ''Aug'', ''Sep'', ''Oct'', ''Nov'', ''Dec'']"

definition day_names :: "string list" where
  "day_names = [''Mon'', ''Tue'', ''Wed'', ''Thu'', ''Fri'', ''Sat'', ''Sun'']"

definition index_of_month :: "string \<Rightarrow> nat option" where
  "index_of_month m =
     (case filter (\<lambda>(i, n). n = m) (zip [1..<13] month_names) of
        [] \<Rightarrow> None
      | (i, n) # _ \<Rightarrow> Some i)"

definition slice :: "nat \<Rightarrow> nat \<Rightarrow> string \<Rightarrow> string" where
  \<comment> \<open>\<^verbatim>\<open>s[i:j]\<close>\<close>
  "slice i j s = take (j - i) (drop i s)"

definition ref_strptime :: "string \<Rightarrow> datetime option" where
  "ref_strptime s =
     (if length s = 30 \<and> slice 0 3 s \<in> set day_names \<and> slice 3 4 s = '' ''
         \<and> slice 7 8 s = '' '' \<and> slice 10 11 s = '' '' \<and> slice 13 14 s = '':''
         \<and> slice 16 17 s = '':'' \<and> slice 19 26 s = '' +0000 ''
      then
        (case (index_of_month (slice 4 7 s), num_of (slice 8 10 s), num_of (slice 11 13 s),
               num_of (slice 14 16 s), num_of (slice 17 19 s), num_of (slice 26 30 s)) of
           (Some m, Some d, Some h, Some mi, Some sec, Some y) \<Rightarrow>
             if 1 \<le> d \<and> d \<le> 28 \<and> h < 24 \<and> mi < 60 \<and> sec < 60 \<and> 1000 \<le> y
             then Some \<lparr>d_year = y, d_month = m, d_day = d, d_hour = h, d_minute = mi,
                        d_second = sec\<rparr>
             else None
         | _ \<Rightarrow> None)
      else None)"

definition pad2 :: "nat \<Rightarrow> string" where
  "pad2 n = (if n < 10 then CHR ''0'' # dec_str n else dec_str n)"

definition is_upper :: "char \<Rightarrow> bool" where
  "is_upper c = (65 \<le> (of_char c :: nat) \<and> (of_char c :: nat) \<le> 90)"

definition is_alpha :: "char \<Rightarrow> bool" where
  "is_alpha c = (is_upper c \<or> 97 \<le> (of_char c :: nat) \<and> (of_char c :: nat) \<le> 122)"

definition ref_lower :: "string \<Rightarrow> string" where
  "ref_lower s = map (\<lambda>c. if is_upper c then char_of (of_char c + (32 :: nat)) else c) s"

definition plain_char :: "char \<Rightarrow> bool" where
  "plain_char c =
     (33 \<le> (of_char c :: nat) \<and> (of_char c :: nat) \<le> 126 \<and> c \<noteq> CHR ''['' \<and> c \<noteq> CHR '']'')"

definition ref_netloc :: "string \<Rightarrow> string option" where
  "ref_netloc u =
     (let scheme = takeWhile (\<lambda>c. c \<noteq> CHR '':'') u;
          rest = (if scheme \<noteq> [] \<and> length scheme < length u \<and> is_alpha (hd scheme)
                     \<and> list_all (\<lambda>c. is_alpha c \<or> is_digit c \<or> c \<in> set ''+-.'') scheme
                  then drop (length scheme + 1) u else u)
      in if \<not> list_all plain_char u then None
         else if startswith rest ''//''
           then Some (takeWhile (\<lambda>c. c \<notin> set ''/?#'') (drop 2 rest))
         else Some [])"

definition ref_year :: "datetime \<Rightarrow> int" where
  "ref_year d = int (d_year d)"

definition ref_ym :: "datetime \<Rightarrow> string" where
  "ref_ym d = dec_str (d_year d) @ ''-'' @ pad2 (d_month d)"

definition ref_ymd :: "datetime \<Rightarrow> string" where
  "ref_ymd d = dec_str (d_year d) @ ''-'' @ pad2 (d_month d) @ ''-'' @ pad2 (d_day d)"

definition ref_instant :: "datetime \<Rightarrow> int" where
  \<comment> \<open>increasing with the instant, for the timestamps that \<open>ref_strptime\<close> reads\<close>
  "ref_instant d =
     ((((int (d_year d) * 12 + int (d_month d)) * 31 + int (d_day d)) * 24
        + int (d_hour d)) * 60 + int (d_minute d)) * 60 + int (d_second d)"

definition ref_lib :: "datetime pylib" where
  "ref_lib =
     \<lparr>strptime = ref_strptime, dt_year = ref_year, strftime_ym = ref_ym,
      strftime_ymd = ref_ymd, dt_instant = ref_instant, urlparse_netloc = ref_netloc,
      str_lower = ref_lower\<rparr>"

definition mk_tweet :: "string \<Rightarrow> string \<Rightarrow> (string \<times> json) list \<Rightarrow> (string \<times> json) list \<Rightarrow> json" where
  \<comment> \<open>a record of \<^verbatim>\<open>tweets.js\<close> with the given timestamp, text, entities and further fields\<close>
  "mk_tweet ts text ents extra =
     JObj [(''tweet'',
            JObj ([(''created_at'', JStr ts), (''full_text'', JStr text),
                   (''entities'', JObj ents)] @ extra))]"

definition url_entity :: "string \<Rightarrow> json" where
  "url_entity u = JObj [(''url'', JStr ''https://t.co/abc''), (''expanded_url'', JStr u)]"

definition sample_tweets :: "json list" where
  "sample_tweets =
     [mk_tweet ''Wed Oct 10 20:19:24 +0000 2018'' ''Hello #a #B''
        [(''hashtags'', JArr [JObj [(''text'', JStr ''a'')], JObj [(''text'', JStr ''B'')]])]
        [(''favorite_count'', JStr ''12''), (''retweet_count'', JInt 3), (''lang'', JStr ''en'')],
      mk_tweet ''Thu Oct 11 08:00:00 +0000 2018'' ''RT @bob: hi #b''
        [(''hashtags'', JArr [JObj [(''text'', JStr ''b'')]]),
         (''user_mentions'', JArr [JObj [(''screen_name'', JStr ''bob'')]])]
        [(''favorite_count'', JStr ''0''), (''retweet_count'', JStr ''7'')],
      mk_tweet ''Tue Jan 01 09:30:00 +0000 2019'' ''Read this''
        [(''urls'', JArr [url_entity ''https://www.example.com/post?id=1''])]
        [(''extended_entities'', JObj [])]]"

definition sample_report :: report where
  "sample_report =
     \<lparr>total_tweets = 3, original_tweets = 2, retweets = 1, with_media = 1, with_urls = 1,
      unique_hashtags = 2, unique_mentions = 1,
      date_range = (''2018-10-10'', ''2019-01-01''),
      top_hashtags = [(''b'', 2), (''a'', 1)],
      top_mentions = [(JStr ''bob'', 1)],
      top_domains = [(''example.com'', 1)],
      languages = [(JStr ''und'', 2), (JStr ''en'', 1)],
      out_monthly_volume =
        [(''2018-10'', \<lparr>m_total = 2, m_original = 1, m_retweet = 1\<rparr>),
         (''2019-01'', \<lparr>m_total = 1, m_original = 1, m_retweet = 0\<rparr>)],
      out_yearly_volume =
        [(''2018'', \<lparr>y_total = 2, y_original = 1, y_retweet = 1, y_with_media = 0,
                     y_favorites = 12, y_retweet_count = 10\<rparr>),
         (''2019'', \<lparr>y_total = 1, y_original = 1, y_retweet = 0, y_with_media = 1,
                     y_favorites = 0, y_retweet_count = 0\<rparr>)],
      out_hashtags_by_year = [(''2018'', [(''b'', 2), (''a'', 1)])],
      out_mentions_by_year = [(''2018'', [(JStr ''bob'', 1)])],
      out_domains_by_year = [(''2019'', [(''example.com'', 1)])],
      top_tweets_by_favorites =
        [\<lparr>t_date = ''2018-10-10'', t_text = ''Hello #a #B'', t_favorites = 12, t_retweets = 3\<rparr>,
         \<lparr>t_date = ''2018-10-11'', t_text = ''RT @bob: hi #b'', t_favorites = 0,
            t_retweets = 7\<rparr>,
         \<lparr>t_date = ''2019-01-01'', t_text = ''Read this'', t_favorites = 0, t_retweets = 0\<rparr>],
      top_tweets_by_retweets =
        [\<lparr>t_date = ''2018-10-11'', t_text = ''RT @bob: hi #b'', t_favorites = 0,
            t_retweets = 7\<rparr>,
         \<lparr>t_date = ''2018-10-10'', t_text = ''Hello #a #B'', t_favorites = 12, t_retweets = 3\<rparr>,
         \<lparr>t_date = ''2019-01-01'', t_text = ''Read this'', t_favorites = 0, t_retweets = 0\<rparr>]\<rparr>"

definition reddit_tweets :: "json list" where
  "reddit_tweets =
     [mk_tweet ''Tue Jan 01 09:30:00 +0000 2019'' ''A thread''
        [(''urls'', JArr [url_entity ''https://www.reddit.com/r/history/''])] []]"

definition nested_www_tweets :: "json list" where
  "nested_www_tweets =
     [mk_tweet ''Tue Jan 01 09:30:00 +0000 2019'' ''A post''
        [(''urls'', JArr [url_entity ''https://blog.www.example.org/2019/''])] []]"

definition loads_empty_array :: "string \<Rightarrow> json option" where
  \<comment> \<open>\<^verbatim>\<open>json.loads\<close> on the text of the empty array; other texts are not described\<close>
  "loads_empty_array s = (if s = ''[]'' then Some (JArr []) else None)"

definition long_count :: string where
  \<comment> \<open>a count written with 4301 digits\<close>
  "long_count = replicate 4301 CHR ''0''"

definition long_count_tweets :: "json list" where
  "long_count_tweets =
     [mk_tweet ''Tue Jan 01 09:30:00 +0000 2019'' ''A post'' []
        [(''favorite_count'', JStr long_count)]]"

section \<open>Notions of the specification\<close>

text \<open>
  The claims speak of the year of a record, of the hashtag strings observed across all
  records, of how often and where first a hashtag was seen, and of records that differ only
  in the way a count is written. These notions are defined here from the words of the
  specification; the theorems compare them with what the code computes. The hashtags and
  the counts of a record are read directly from its JSON value.
\<close>

definition json_field :: "json \<Rightarrow> string \<Rightarrow> json option" where
  \<comment> \<open>the value of the field \<open>k\<close> of a JSON object, if it has one\<close>
  "json_field v k = (case v of JObj kv \<Rightarrow> map_of kv k | _ \<Rightarrow> None)"

definition tweet_year :: "'dt pylib \<Rightarrow> json \<Rightarrow> string" where
  \<comment> \<open>the year of a record: the year of its creation timestamp, as a string\<close>
  "tweet_year L t =
     (case rbind (subscript t ''tweet'') (created_at L) of
        Inr dt \<Rightarrow> py_str_int (dt_year L dt)
      | Inl _ \<Rightarrow> [])"

definition hashtag_entities :: "json \<Rightarrow> json list" where
  \<comment> \<open>the hashtag entities of a record: the list at \<^verbatim>\<open>tweet.entities.hashtags\<close>\<close>
  "hashtag_entities t =
     (case json_field t ''tweet'' of
        Some tw \<Rightarrow>
          (case json_field tw ''entities'' of
             Some e \<Rightarrow> (case json_field e ''hashtags'' of Some (JArr hs) \<Rightarrow> hs | _ \<Rightarrow> [])
           | None \<Rightarrow> [])
      | None \<Rightarrow> [])"

definition hashtag_text :: "'dt pylib \<Rightarrow> json \<Rightarrow> string" where
  \<comment> \<open>the text of a hashtag entity, in lower case\<close>
  "hashtag_text L h =
     (case json_field h ''text'' of Some (JStr s) \<Rightarrow> str_lower L s | _ \<Rightarrow> [])"

definition tweet_hashtags :: "'dt pylib \<Rightarrow> json \<Rightarrow> string list" where
  \<comment> \<open>the lowercased texts of the hashtag entities of a record, in their order\<close>
  "tweet_hashtags L t = map (hashtag_text L) (hashtag_entities t)"

definition observed_hashtags :: "'dt pylib \<Rightarrow> json list \<Rightarrow> string list" where
  \<comment> \<open>every hashtag string observed across all records, in the order of observation\<close>
  "observed_hashtags L tweets = concat (map (tweet_hashtags L) tweets)"

fun first_index :: "'a list \<Rightarrow> 'a \<Rightarrow> nat" where
  \<comment> \<open>the position at which \<open>x\<close> is first seen in the list\<close>
  "first_index [] x = 0"
| "first_index (y # ys) x = (if x = y then 0 else Suc (first_index ys x))"

definition ranks_before :: "'a list \<Rightarrow> 'a \<Rightarrow> 'a \<Rightarrow> bool" where
  \<comment> \<open>higher count first; among equal counts, first seen first\<close>
  "ranks_before obs h h' =
     (count_list obs h > count_list obs h'
      \<or> (count_list obs h = count_list obs h' \<and> first_index obs h < first_index obs h'))"

definition digit_string :: "string \<Rightarrow> bool" where
  \<comment> \<open>a string of decimal digits\<close>
  "digit_string s = (s \<noteq> [] \<and> list_all is_digit s)"

definition count_string :: "string \<Rightarrow> bool" where
  \<comment> \<open>a string of at most 4300 decimal digits\<close>
  "count_string s = (digit_string s \<and> length s \<le> 4300)"

definition dec_value :: "string \<Rightarrow> int" where
  \<comment> \<open>the integer that a string of decimal digits denotes\<close>
  "dec_value s = int (foldl (\<lambda>a c. 10 * a + digit_val c) 0 s)"

definition int_count :: "json \<Rightarrow> json" where
  \<comment> \<open>a count that is a string of at most 4300 decimal digits, written as the integer
      instead\<close>
  "int_count v =
     (case v of
        JStr s \<Rightarrow> if count_string s then JInt (dec_value s) else v
      | _ \<Rightarrow> v)"

definition tweet_int_counts :: "json \<Rightarrow> json" where
  "tweet_int_counts tw =
     (case tw of
        JObj kv \<Rightarrow>
          JObj (map (\<lambda>(k, v).
                  if k = ''favorite_count'' \<or> k = ''retweet_count'' then (k, int_count v)
                  else (k, v)) kv)
      | _ \<Rightarrow> tw)"

definition with_int_counts :: "json \<Rightarrow> json" where
  \<comment> \<open>the same record with integer-valued \<^verbatim>\<open>favorite_count\<close> and \<^verbatim>\<open>retweet_count\<close>\<close>
  "with_int_counts t =
     (case t of
        JObj kv \<Rightarrow>
          JObj (map (\<lambda>(k, v). if k = ''tweet'' then (k, tweet_int_counts v) else (k, v)) kv)
      | _ \<Rightarrow> t)"

definition count_field :: "string \<Rightarrow> json \<Rightarrow> json option" where
  \<comment> \<open>the field \<open>k\<close> of the tweet object of a record\<close>
  "count_field k t =
     (case json_field t ''tweet'' of Some tw \<Rightarrow> json_field tw k | None \<Rightarrow> None)"

definition plain_count :: "string \<Rightarrow> json \<Rightarrow> bool" where
  \<comment> \<open>the count \<open>k\<close> of the record is absent, an integer or a string of at most 4300
      decimal digits\<close>
  "plain_count k t =
     (case count_field k t of
        None \<Rightarrow> True
      | Some (JInt n) \<Rightarrow> True
      | Some (JStr s) \<Rightarrow> count_string s
      | Some _ \<Rightarrow> False)"

definition plain_counts :: "json \<Rightarrow> bool" where
  "plain_counts t = (plain_count ''favorite_count'' t \<and> plain_count ''retweet_count'' t)"

definition count_of :: "string \<Rightarrow> json \<Rightarrow> int" where
  \<comment> \<open>the integer that the count \<open>k\<close> of the record denotes: the integer itself, the value of
      the digit string, 0 for an absent count\<close>
  "count_of k t =
     (case count_field k t of
        Some (JInt n) \<Rightarrow> n
      | Some (JStr s) \<Rightarrow> dec_value s
      | _ \<Rightarrow> 0)"

definition year_sum :: "'dt pylib \<Rightarrow> string \<Rightarrow> json list \<Rightarrow> string \<Rightarrow> int" where
  \<comment> \<open>the sum of the count \<open>k\<close> over the records of the year \<open>y\<close>\<close>
  "year_sum L k tweets y =
     sum_list (map (count_of k) (filter (\<lambda>t. tweet_year L t = y) tweets))"

definition tweet_date :: "'dt pylib \<Rightarrow> json \<Rightarrow> string" where
  \<comment> \<open>the day of a record, as \<^verbatim>\<open>%Y-%m-%d\<close>\<close>
  "tweet_date L t =
     (case rbind (subscript t ''tweet'') (created_at L) of
        Inr dt \<Rightarrow> strftime_ymd L dt
      | Inl _ \<Rightarrow> [])"

definition tweet_text :: "json \<Rightarrow> string" where
  \<comment> \<open>the first 200 characters of the text of a record\<close>
  "tweet_text t =
     (case rbind (subscript t ''tweet'') full_text of
        Inr s \<Rightarrow> take 200 s
      | Inl _ \<Rightarrow> [])"

definition tweet_projection :: "'dt pylib \<Rightarrow> json \<Rightarrow> top_tweet" where
  \<comment> \<open>what the lists of top tweets show of a record, with the counts as integers\<close>
  "tweet_projection L t =
     \<lparr>t_date = tweet_date L t, t_text = tweet_text t,
      t_favorites = count_of ''favorite_count'' t, t_retweets = count_of ''retweet_count'' t\<rparr>"

section \<open>Results and the structure of a successful run\<close>

lemma rbind_Inr [simp]: "rbind (Inr x) f = f x" by (simp add: rbind_def)
lemma rbind_Inl [simp]: "rbind (Inl e) f = Inl e" by (simp add: rbind_def)
lemma rbind_eq_Inr: "rbind m f = Inr y \<longleftrightarrow> (\<exists>x. m = Inr x \<and> f x = Inr y)"
  by (cases m) simp_all
lemma rbind_weak_cong: "m = m' \<Longrightarrow> rbind m f = rbind m' f" by simp

lemma map_result_length: "map_result f xs = Inr ys \<Longrightarrow> length ys = length xs"
  by (induction xs arbitrary: ys) (auto simp: rbind_eq_Inr)

text \<open>
  Claim C3 says that the aggregation of an empty list of records succeeds with zero totals
  and empty rankings. The code does not: the loop and the totals are computed, and then
  \<^verbatim>\<open>dates[0]\<close> in line 187 raises \<^verbatim>\<open>IndexError\<close> on the empty list of dates, so no report
  is produced.
\<close>

theorem process_tweets_empty_raises: "process_tweets L [] = Inl IndexError"
  by (simp add: process_tweets_def build_output_def sorted_dates_def)

lemma records_fold_hashtag [simp]: "records (fold (count_hashtag y) hs a) = records a"
  by (induction hs arbitrary: a) (simp_all add: count_hashtag_def)

lemma records_count_mentions: "count_mentions y ms a = Inr a' \<Longrightarrow> records a' = records a"
  by (induction ms arbitrary: a) (auto split: if_splits)

lemma records_count_urls: "count_urls L y us a n = Inr (a', n') \<Longrightarrow> records a' = records a"
  by (induction us arbitrary: a n) (auto simp: rbind_eq_Inr count_domain_def split: option.splits)

lemma records_count_lang: "count_lang tw a = Inr a' \<Longrightarrow> records a' = records a"
  by (auto simp: count_lang_def rbind_eq_Inr split: if_splits)

lemma process_tweet_records:
  "process_tweet L t a = Inr a' \<Longrightarrow> \<exists>r. records a' = records a @ [r]"
  unfolding process_tweet_def Let_def
  by (auto simp: rbind_eq_Inr records_count_mentions records_count_urls records_count_lang
      dest!: records_count_mentions records_count_urls records_count_lang)

lemma process_loop_records:
  "process_loop L ts a = Inr a' \<Longrightarrow> length (records a') = length (records a) + length ts"
  by (induction ts arbitrary: a) (auto simp: rbind_eq_Inr dest!: process_tweet_records)

lemma process_tweets_fields:
  assumes "process_tweets L tweets = Inr out"
  obtains a where "process_loop L tweets empty_acc = Inr a"
    and "total_tweets out = int (length (records a))"
    and "original_tweets out = int (length (filter (\<lambda>r. \<not> r_is_retweet r) (records a)))"
    and "retweets out = total_tweets out - original_tweets out"
    and "with_urls out = int (length (filter (\<lambda>r. r_url_count r > 0) (records a)))"
    and "unique_hashtags out = int (length (all_hashtags a))"
    and "top_hashtags out = most_common 50 (all_hashtags a)"
    and "top_domains out = most_common 50 (all_domains a)"
    and "out_monthly_volume out = monthly_volume a"
    and "out_yearly_volume out = yearly_volume a"
    and "out_hashtags_by_year out = map (\<lambda>(y, c). (y, most_common 20 c)) (hashtags_by_year a)"
    and "out_mentions_by_year out = map (\<lambda>(y, c). (y, most_common 20 c)) (mentions_by_year a)"
    and "out_domains_by_year out = map (\<lambda>(y, c). (y, most_common 20 c)) (domains_by_year a)"
    and "top_tweets_by_favorites out
           = map top_of (take 20 (sort_key (\<lambda>r. - r_favorites r) (records a)))"
    and "top_tweets_by_retweets out
           = map top_of (take 20 (sort_key (\<lambda>r. - r_retweets r) (records a)))"
proof -
  from assms obtain a where a: "process_loop L tweets empty_acc = Inr a"
    and b: "build_output L tweets a = Inr out"
    by (auto simp: process_tweets_def rbind_eq_Inr)
  from b obtain dates where "sorted_dates L tweets = Inr dates" and
    c: "(case dates of [] \<Rightarrow> Inl IndexError | d # ds \<Rightarrow> Inr
      \<lparr>total_tweets = int (length (records a)),
       original_tweets = int (length (filter (\<lambda>r. \<not> r_is_retweet r) (records a))),
       retweets = int (length (records a)) - int (length (filter (\<lambda>r. \<not> r_is_retweet r) (records a))),
       with_media = int (length (filter r_has_media (records a))),
       with_urls = int (length (filter (\<lambda>r. r_url_count r > 0) (records a))),
       unique_hashtags = int (length (all_hashtags a)),
       unique_mentions = int (length (all_mentions a)),
       date_range = (strftime_ymd L d, strftime_ymd L (last (d # ds))),
       top_hashtags = most_common 50 (all_hashtags a),
       top_mentions = most_common 50 (all_mentions a),
       top_domains = most_common 50 (all_domains a),
       languages = most_common 20 (lang_counts a),
       out_monthly_volume = monthly_volume a,
       out_yearly_volume = yearly_volume a,
       out_hashtags_by_year = map (\<lambda>(y, c). (y, most_common 20 c)) (hashtags_by_year a),
       out_mentions_by_year = map (\<lambda>(y, c). (y, most_common 20 c)) (mentions_by_year a),
       out_domains_by_year = map (\<lambda>(y, c). (y, most_common 20 c)) (domains_by_year a),
       top_tweets_by_favorites = map top_of (take 20 (sort_key (\<lambda>r. - r_favorites r) (records a))),
       top_tweets_by_retweets = map top_of (take 20 (sort_key (\<lambda>r. - r_retweets r) (records a)))\<rparr>)
      = Inr out"
    unfolding build_output_def Let_def rbind_eq_Inr by blast
  then obtain d ds where "dates = d # ds" by (cases dates) auto
  with c have out: "out = \<lparr>total_tweets = int (length (records a)),
       original_tweets = int (length (filter (\<lambda>r. \<not> r_is_retweet r) (records a))),
       retweets = int (length (records a)) - int (length (filter (\<lambda>r. \<not> r_is_retweet r) (records a))),
       with_media = int (length (filter r_has_media (records a))),
       with_urls = int (length (filter (\<lambda>r. r_url_count r > 0) (records a))),
       unique_hashtags = int (length (all_hashtags a)),
       unique_mentions = int (length (all_mentions a)),
       date_range = (strftime_ymd L d, strftime_ymd L (last (d # ds))),
       top_hashtags = most_common 50 (all_hashtags a),
       top_mentions = most_common 50 (all_mentions a),
       top_domains = most_common 50 (all_domains a),
       languages = most_common 20 (lang_counts a),
       out_monthly_volume = monthly_volume a,
       out_yearly_volume = yearly_volume a,
       out_hashtags_by_year = map (\<lambda>(y, c). (y, most_common 20 c)) (hashtags_by_year a),
       out_mentions_by_year = map (\<lambda>(y, c). (y, most_common 20 c)) (mentions_by_year a),
       out_domains_by_year = map (\<lambda>(y, c). (y, most_common 20 c)) (domains_by_year a),
       top_tweets_by_favorites = map top_of (take 20 (sort_key (\<lambda>r. - r_favorites r) (records a))),
       top_tweets_by_retweets = map top_of (take 20 (sort_key (\<lambda>r. - r_retweets r) (records a)))\<rparr>"
    by simp
  show thesis
    by (rule that [OF a]) (simp_all add: out)
qed

text \<open>
  Claim C6: on every list of records on which the aggregation succeeds,
  \<open>original_tweets + retweets = total_tweets\<close>, and \<open>total_tweets\<close> is the number of input
  records.
\<close>

theorem totals_add_up:
  assumes "process_tweets L tweets = Inr out"
  shows "original_tweets out + retweets out = total_tweets out \<and> total_tweets out = int (length tweets)"
proof -
  from assms obtain a where a: "process_loop L tweets empty_acc = Inr a"
    and t: "total_tweets out = int (length (records a))"
    and r: "retweets out = total_tweets out - original_tweets out"
    by (rule process_tweets_fields)
  from process_loop_records [OF a] have "length (records a) = length tweets"
    by (simp add: empty_acc_def)
  with t r show ?thesis by simp
qed

subsection \<open>Dicts\<close>

lemma dict_upd_map_fst:
  "map fst (dict_upd k d f m) = (if k \<in> set (map fst m) then map fst m else map fst m @ [k])"
proof (induction m)
  case Nil
  show ?case by simp
next
  case (Cons kv m)
  then show ?case by (cases kv) force
qed

lemma dict_upd_keys: "fst ` set (dict_upd k d f m) = insert k (fst ` set m)"
  using arg_cong [OF dict_upd_map_fst [of k d f m], of set] by (auto split: if_splits)

lemma dict_upd_distinct: "distinct (map fst m) \<Longrightarrow> distinct (map fst (dict_upd k d f m))"
  by (simp add: dict_upd_map_fst)

lemma dict_upd_in:
  "(k', v') \<in> set (dict_upd k d f m) \<Longrightarrow>
     (k', v') \<in> set m \<or> (k' = k \<and> (v' = f d \<or> (\<exists>v. (k, v) \<in> set m \<and> v' = f v)))"
  by (induction m) (auto split: if_splits)

lemma dict_upd_sum:
  fixes g :: "'v \<Rightarrow> int"
  assumes "\<And>v. g (f v) = g v + 1" and "g d = 0"
  shows "sum_list (map (\<lambda>kv. g (snd kv)) (dict_upd k d f m)) = sum_list (map (\<lambda>kv. g (snd kv)) m) + 1"
  by (induction m) (auto simp: assms)

subsection \<open>What each block of the loop body changes\<close>

lemma fold_count_hashtag_frame:
  "all_mentions (fold (count_hashtag y) hs a) = all_mentions a"
  "all_domains (fold (count_hashtag y) hs a) = all_domains a"
  "lang_counts (fold (count_hashtag y) hs a) = lang_counts a"
  "monthly_volume (fold (count_hashtag y) hs a) = monthly_volume a"
  "yearly_volume (fold (count_hashtag y) hs a) = yearly_volume a"
  "mentions_by_year (fold (count_hashtag y) hs a) = mentions_by_year a"
  "domains_by_year (fold (count_hashtag y) hs a) = domains_by_year a"
  by (induction hs arbitrary: a; simp add: count_hashtag_def)+

lemma fold_count_hashtag_all:
  "all_hashtags (fold (count_hashtag y) hs a) = fold (counter_incr (=)) hs (all_hashtags a)"
  by (induction hs arbitrary: a) (simp_all add: count_hashtag_def)

lemma fold_count_hashtag_years:
  "fst ` set (hashtags_by_year (fold (count_hashtag y) hs a))
     \<subseteq> insert y (fst ` set (hashtags_by_year a))"
proof (induction hs arbitrary: a)
  case Nil
  show ?case by auto
next
  case (Cons h hs)
  have "fst ` set (hashtags_by_year (count_hashtag y h a))
          = insert y (fst ` set (hashtags_by_year a))"
    by (simp add: count_hashtag_def dict_upd_keys)
  with Cons [of "count_hashtag y h a"] show ?case by auto
qed

lemma count_mentions_frame:
  assumes "count_mentions y ms a = Inr a'"
  shows "all_hashtags a' = all_hashtags a \<and> all_domains a' = all_domains a
    \<and> lang_counts a' = lang_counts a \<and> monthly_volume a' = monthly_volume a
    \<and> yearly_volume a' = yearly_volume a \<and> hashtags_by_year a' = hashtags_by_year a
    \<and> domains_by_year a' = domains_by_year a
    \<and> fst ` set (mentions_by_year a') \<subseteq> insert y (fst ` set (mentions_by_year a))"
  using assms
proof (induction ms arbitrary: a)
  case Nil
  then show ?case by auto
next
  case (Cons m ms)
  let ?b = "a\<lparr>all_mentions := counter_incr py_eq m (all_mentions a),
               mentions_by_year := dict_upd y [] (counter_incr py_eq m) (mentions_by_year a)\<rparr>"
  from Cons.prems have "count_mentions y ms ?b = Inr a'" by (simp split: if_splits)
  from Cons.IH [OF this] show ?case by (auto simp: dict_upd_keys)
qed

lemma count_urls_frame:
  assumes "count_urls L y us a n = Inr (a', n')"
  shows "all_hashtags a' = all_hashtags a \<and> all_mentions a' = all_mentions a
    \<and> lang_counts a' = lang_counts a \<and> monthly_volume a' = monthly_volume a
    \<and> yearly_volume a' = yearly_volume a \<and> hashtags_by_year a' = hashtags_by_year a
    \<and> mentions_by_year a' = mentions_by_year a
    \<and> fst ` set (domains_by_year a') \<subseteq> insert y (fst ` set (domains_by_year a))"
  using assms
proof (induction us arbitrary: a n)
  case Nil
  then show ?case by auto
next
  case (Cons u us)
  from Cons.prems obtain d e where "py_get u ''expanded_url'' d = Inr e"
    and r: "(case url_domain L e of
              Some domain \<Rightarrow> count_urls L y us (count_domain y domain a) (n + 1)
            | None \<Rightarrow> count_urls L y us a n) = Inr (a', n')"
    by (auto simp: rbind_eq_Inr)
  show ?case
  proof (cases "url_domain L e")
    case None
    with r Cons.IH [of a n] show ?thesis by simp
  next
    case (Some dom)
    with r have "count_urls L y us (count_domain y dom a) (n + 1) = Inr (a', n')" by simp
    from Cons.IH [OF this] show ?thesis by (auto simp: count_domain_def dict_upd_keys)
  qed
qed

lemma count_lang_frame:
  assumes "count_lang tw a = Inr a'"
  shows "all_hashtags a' = all_hashtags a \<and> all_mentions a' = all_mentions a
    \<and> all_domains a' = all_domains a \<and> monthly_volume a' = monthly_volume a
    \<and> yearly_volume a' = yearly_volume a \<and> hashtags_by_year a' = hashtags_by_year a
    \<and> mentions_by_year a' = mentions_by_year a \<and> domains_by_year a' = domains_by_year a"
  using assms by (auto simp: count_lang_def rbind_eq_Inr split: if_splits)

lemma process_tweet_step:
  assumes "process_tweet L t a = Inr a'"
  obtains tw dt ftext media hs fav rt n where
    "subscript t ''tweet'' = Inr tw" and "created_at L tw = Inr dt"
    and "hashtags_of L tw = Inr hs"
    and "full_text tw = Inr ftext" and "engagement tw = Inr (fav, rt)"
    and "all_hashtags a' = fold (counter_incr (=)) hs (all_hashtags a)"
    and "yearly_volume a' =
           dict_upd (py_str_int (dt_year L dt))
             \<lparr>y_total = 0, y_original = 0, y_retweet = 0, y_with_media = 0,
              y_favorites = 0, y_retweet_count = 0\<rparr>
             (yearly_bump (startswith ftext ''RT @'') media fav rt) (yearly_volume a)"
    and "monthly_volume a' =
           dict_upd (strftime_ym L dt) \<lparr>m_total = 0, m_original = 0, m_retweet = 0\<rparr>
             (monthly_bump (startswith ftext ''RT @'')) (monthly_volume a)"
    and "records a' = records a @
           [\<lparr>r_date = strftime_ymd L dt, r_text = take 200 ftext,
             r_favorites = fav, r_retweets = rt, r_is_retweet = startswith ftext ''RT @'',
             r_has_media = media, r_url_count = n\<rparr>]"
    and "fst ` set (hashtags_by_year a')
           \<subseteq> insert (py_str_int (dt_year L dt)) (fst ` set (hashtags_by_year a))"
    and "fst ` set (mentions_by_year a')
           \<subseteq> insert (py_str_int (dt_year L dt)) (fst ` set (mentions_by_year a))"
    and "fst ` set (domains_by_year a')
           \<subseteq> insert (py_str_int (dt_year L dt)) (fst ` set (domains_by_year a))"
proof -
  from assms obtain tw dt ftext media hs ms a1 urls us a2 n a3 fav rt where
    tw: "subscript t ''tweet'' = Inr tw" and dt: "created_at L tw = Inr dt"
    and ft: "full_text tw = Inr ftext" and "has_media tw = Inr media"
    and hs: "hashtags_of L tw = Inr hs" and "mentions_of tw = Inr ms"
    and a1: "count_mentions (py_str_int (dt_year L dt)) ms
               (fold (count_hashtag (py_str_int (dt_year L dt))) hs a) = Inr a1"
    and "entity_list tw ''urls'' = Inr urls" and "py_iter urls = Inr us"
    and a2: "count_urls L (py_str_int (dt_year L dt)) us a1 0 = Inr (a2, n)"
    and a3: "count_lang tw a2 = Inr a3"
    and en: "engagement tw = Inr (fav, rt)"
    and a': "a' = a3\<lparr>monthly_volume :=
                 dict_upd (strftime_ym L dt) \<lparr>m_total = 0, m_original = 0, m_retweet = 0\<rparr>
                   (monthly_bump (startswith ftext ''RT @'')) (monthly_volume a3),
              yearly_volume :=
                 dict_upd (py_str_int (dt_year L dt))
                 \<lparr>y_total = 0, y_original = 0, y_retweet = 0, y_with_media = 0,
                  y_favorites = 0, y_retweet_count = 0\<rparr>
                 (yearly_bump (startswith ftext ''RT @'') media fav rt) (yearly_volume a3),
              records := records a3 @
                 [\<lparr>r_date = strftime_ymd L dt, r_text = take 200 ftext,
                   r_favorites = fav, r_retweets = rt, r_is_retweet = startswith ftext ''RT @'',
                   r_has_media = media, r_url_count = n\<rparr>]\<rparr>"
    by (auto simp: process_tweet_def Let_def rbind_eq_Inr split: prod.splits)
  note f1 = count_mentions_frame [OF a1] and f2 = count_urls_frame [OF a2]
    and f3 = count_lang_frame [OF a3]
  note r1 = records_count_mentions [OF a1] and r2 = records_count_urls [OF a2]
    and r3 = records_count_lang [OF a3]
  show thesis
  proof (rule that [OF tw dt hs ft en])
    show "all_hashtags a' = fold (counter_incr (=)) hs (all_hashtags a)"
      using f1 f2 f3 by (simp add: a' fold_count_hashtag_all)
    show "fst ` set (hashtags_by_year a')
           \<subseteq> insert (py_str_int (dt_year L dt)) (fst ` set (hashtags_by_year a))"
      using f1 f2 f3 fold_count_hashtag_years [of "py_str_int (dt_year L dt)" hs a]
      by (simp add: a')
    show "fst ` set (mentions_by_year a')
           \<subseteq> insert (py_str_int (dt_year L dt)) (fst ` set (mentions_by_year a))"
      using f1 f2 f3 by (simp add: a' fold_count_hashtag_frame)
    show "fst ` set (domains_by_year a')
           \<subseteq> insert (py_str_int (dt_year L dt)) (fst ` set (domains_by_year a))"
      using f1 f2 f3 by (simp add: a' fold_count_hashtag_frame)
  qed (use f1 f2 f3 r1 r2 r3 in \<open>simp_all add: a' fold_count_hashtag_frame\<close>)
qed

subsection \<open>Invariants of the loop\<close>

lemma tweet_year_eq:
  "subscript t ''tweet'' = Inr tw \<Longrightarrow> created_at L tw = Inr dt \<Longrightarrow>
     tweet_year L t = py_str_int (dt_year L dt)"
  by (simp add: tweet_year_def)

text \<open>
  The hashtags that lines 82 to 84 read from a record are the lowercased texts of the entities
  in its JSON value: where the loop body returns, the value at \<^verbatim>\<open>hashtags\<close> is a list of
  objects with a string \<^verbatim>\<open>text\<close>, or is absent or empty.
\<close>

lemma map_result_eq_map:
  assumes "map_result f xs = Inr ys" and "\<And>x y. f x = Inr y \<Longrightarrow> y = g x"
  shows "ys = map g xs"
  using assms(1)
proof (induction xs arbitrary: ys)
  case Nil
  then show ?case by simp
next
  case (Cons x xs)
  then show ?case by (auto simp: rbind_eq_Inr dest: assms(2))
qed

lemma map_result_all_fail:
  assumes "map_result f xs = Inr ys" and "\<And>x. x \<in> set xs \<Longrightarrow> isl (f x)"
  shows "xs = [] \<and> ys = []"
proof (cases xs)
  case Nil
  with assms(1) show ?thesis by simp
next
  case (Cons x xs')
  with assms(2) [of x] have "isl (f x)" by simp
  with assms(1) Cons show ?thesis by (cases "f x") (simp_all add: rbind_def)
qed

lemma hashtag_text_eq:
  "rbind (subscript h ''text'') (\<lambda>v. case v of JStr s \<Rightarrow> Inr (str_lower L s) | _ \<Rightarrow> Inl AttributeError) = Inr y
     \<Longrightarrow> y = hashtag_text L h"
  by (cases h) (auto simp: rbind_eq_Inr subscript_def hashtag_text_def json_field_def
      split: option.splits json.splits)

lemma hashtags_of_entities:
  assumes "hashtags_of L tw = Inr hs"
  shows "hs = map (hashtag_text L)
           (case json_field tw ''entities'' of
              Some e \<Rightarrow> (case json_field e ''hashtags'' of Some (JArr xs) \<Rightarrow> xs | _ \<Rightarrow> [])
            | None \<Rightarrow> [])"
proof -
  let ?f = "\<lambda>h. rbind (subscript h ''text'')
               (\<lambda>v. case v of JStr s \<Rightarrow> Inr (str_lower L s) | _ \<Rightarrow> Inl AttributeError)"
  from assms obtain v xs where v: "entity_list tw ''hashtags'' = Inr v"
    and xs: "py_iter v = Inr xs" and m: "map_result ?f xs = Inr hs"
    by (auto simp: hashtags_of_def rbind_eq_Inr)
  have hs: "hs = map (hashtag_text L) xs"
    using m by (rule map_result_eq_map) (rule hashtag_text_eq)
  have fail: "xs = []" if "\<And>x. x \<in> set xs \<Longrightarrow> \<exists>s. x = JStr s"
  proof -
    have "isl (?f x)" if "x \<in> set xs" for x
      using \<open>\<And>x. x \<in> set xs \<Longrightarrow> \<exists>s. x = JStr s\<close> [OF that] by (auto simp: subscript_def)
    with m show ?thesis using map_result_all_fail by blast
  qed
  from v obtain kv where tw: "tw = JObj kv"
    by (cases tw) (auto simp: entity_list_def py_get_def rbind_eq_Inr)
  show ?thesis
  proof (cases v)
    case (JArr ys)
    with xs have "xs = ys" by (simp add: py_iter_def)
    with v JArr hs tw show ?thesis
      by (auto simp: entity_list_def py_get_def rbind_eq_Inr json_field_def
          split: option.splits json.splits)
  next
    case (JStr s)
    with xs have "xs = map (\<lambda>c. JStr [c]) s" by (auto simp: py_iter_def)
    then have "xs = []" by (intro fail) auto
    with v JStr hs tw show ?thesis
      by (auto simp: entity_list_def py_get_def rbind_eq_Inr json_field_def
          split: option.splits json.splits)
  next
    case (JObj kv')
    with xs have "xs = map JStr (remdups (map fst kv'))" by (auto simp: py_iter_def)
    then have "xs = []" by (intro fail) auto
    with v JObj hs tw show ?thesis
      by (auto simp: entity_list_def py_get_def rbind_eq_Inr json_field_def
          split: option.splits json.splits)
  qed (use xs in \<open>simp_all add: py_iter_def\<close>)
qed

lemma tweet_hashtags_eq:
  "subscript t ''tweet'' = Inr tw \<Longrightarrow> hashtags_of L tw = Inr hs \<Longrightarrow> tweet_hashtags L t = hs"
  by (cases t)
    (auto simp: tweet_hashtags_def hashtag_entities_def json_field_def subscript_def
      dest!: hashtags_of_entities split: option.splits)

lemma yearly_bump_total [simp]: "y_total (yearly_bump r m f c v) = y_total v + 1"
  by (simp add: yearly_bump_def Let_def)

lemma yearly_bump_split:
  "y_original (yearly_bump r m f c v) + y_retweet (yearly_bump r m f c v)
     = y_original v + y_retweet v + 1"
  by (simp add: yearly_bump_def Let_def)

lemma monthly_bump_split:
  "m_original (monthly_bump r v) + m_retweet (monthly_bump r v) = m_original v + m_retweet v + 1"
  "m_total (monthly_bump r v) = m_total v + 1"
  by (simp_all add: monthly_bump_def Let_def)

lemma process_tweet_volumes:
  assumes "process_tweet L t a = Inr a'"
    and "\<forall>(y, v) \<in> set (yearly_volume a). y_original v + y_retweet v = y_total v"
    and "\<forall>(m, v) \<in> set (monthly_volume a). m_original v + m_retweet v = m_total v"
    and "distinct (map fst (yearly_volume a))" and "distinct (map fst (monthly_volume a))"
    and "sum_list (map (\<lambda>kv. y_total (snd kv)) (yearly_volume a)) = int (length (records a))"
  shows "(\<forall>(y, v) \<in> set (yearly_volume a'). y_original v + y_retweet v = y_total v)
    \<and> (\<forall>(m, v) \<in> set (monthly_volume a'). m_original v + m_retweet v = m_total v)
    \<and> distinct (map fst (yearly_volume a')) \<and> distinct (map fst (monthly_volume a'))
    \<and> sum_list (map (\<lambda>kv. y_total (snd kv)) (yearly_volume a')) = int (length (records a'))"
proof -
  from assms(1) obtain dt ftext media fav rt r where
    y: "yearly_volume a' =
           dict_upd (py_str_int (dt_year L dt))
             \<lparr>y_total = 0, y_original = 0, y_retweet = 0, y_with_media = 0,
              y_favorites = 0, y_retweet_count = 0\<rparr>
             (yearly_bump (startswith ftext ''RT @'') media fav rt) (yearly_volume a)"
    and m: "monthly_volume a' =
           dict_upd (strftime_ym L dt) \<lparr>m_total = 0, m_original = 0, m_retweet = 0\<rparr>
             (monthly_bump (startswith ftext ''RT @'')) (monthly_volume a)"
    and r: "records a' = records a @ [r]"
    by (rule process_tweet_step) blast
  have "\<forall>(y, v) \<in> set (yearly_volume a'). y_original v + y_retweet v = y_total v"
    unfolding y using assms(2) by (auto dest!: dict_upd_in simp: yearly_bump_split)
  moreover have "\<forall>(m, v) \<in> set (monthly_volume a'). m_original v + m_retweet v = m_total v"
    unfolding m using assms(3) by (auto dest!: dict_upd_in simp: monthly_bump_split)
  moreover have "distinct (map fst (yearly_volume a'))"
    unfolding y using assms(4) by (rule dict_upd_distinct)
  moreover have "distinct (map fst (monthly_volume a'))"
    unfolding m using assms(5) by (rule dict_upd_distinct)
  moreover have "sum_list (map (\<lambda>kv. y_total (snd kv)) (yearly_volume a')) = int (length (records a'))"
    unfolding y using assms(6) by (simp add: dict_upd_sum r)
  ultimately show ?thesis by blast
qed

lemma process_loop_volumes:
  assumes "process_loop L ts a = Inr a'"
    and "\<forall>(y, v) \<in> set (yearly_volume a). y_original v + y_retweet v = y_total v"
    and "\<forall>(m, v) \<in> set (monthly_volume a). m_original v + m_retweet v = m_total v"
    and "distinct (map fst (yearly_volume a))" and "distinct (map fst (monthly_volume a))"
    and "sum_list (map (\<lambda>kv. y_total (snd kv)) (yearly_volume a)) = int (length (records a))"
  shows "(\<forall>(y, v) \<in> set (yearly_volume a'). y_original v + y_retweet v = y_total v)
    \<and> (\<forall>(m, v) \<in> set (monthly_volume a'). m_original v + m_retweet v = m_total v)
    \<and> distinct (map fst (yearly_volume a')) \<and> distinct (map fst (monthly_volume a'))
    \<and> sum_list (map (\<lambda>kv. y_total (snd kv)) (yearly_volume a')) = int (length (records a'))"
  using assms
proof (induction ts arbitrary: a)
  case Nil
  then show ?case by simp
next
  case (Cons t ts)
  from Cons.prems(1) obtain b where b: "process_tweet L t a = Inr b"
    and l: "process_loop L ts b = Inr a'"
    by (auto simp: rbind_eq_Inr)
  from process_tweet_volumes [OF b Cons.prems(2-6)] Cons.IH [OF l] show ?case by blast
qed

text \<open>
  Claim C4: in the report of every successful run, each year bucket of \<open>yearly_volume\<close> and
  each month bucket of \<open>monthly_volume\<close> has \<open>original + retweet = total\<close>, and the totals of
  the year buckets add up to \<open>total_tweets\<close>. The keys of each table are distinct, so the
  sum over the items is the sum over the years.
\<close>

theorem volume_totals:
  assumes "process_tweets L tweets = Inr out"
  shows "(\<forall>(y, v) \<in> set (out_yearly_volume out). y_original v + y_retweet v = y_total v)
    \<and> (\<forall>(m, v) \<in> set (out_monthly_volume out). m_original v + m_retweet v = m_total v)
    \<and> distinct (map fst (out_yearly_volume out)) \<and> distinct (map fst (out_monthly_volume out))
    \<and> sum_list (map (\<lambda>kv. y_total (snd kv)) (out_yearly_volume out)) = total_tweets out"
proof -
  from assms obtain a where a: "process_loop L tweets empty_acc = Inr a"
    and "total_tweets out = int (length (records a))"
    and "out_monthly_volume out = monthly_volume a"
    and "out_yearly_volume out = yearly_volume a"
    by (rule process_tweets_fields)
  moreover from process_loop_volumes [OF a]
  have "(\<forall>(y, v) \<in> set (yearly_volume a). y_original v + y_retweet v = y_total v)
    \<and> (\<forall>(m, v) \<in> set (monthly_volume a). m_original v + m_retweet v = m_total v)
    \<and> distinct (map fst (yearly_volume a)) \<and> distinct (map fst (monthly_volume a))
    \<and> sum_list (map (\<lambda>kv. y_total (snd kv)) (yearly_volume a)) = int (length (records a))"
    by (simp add: empty_acc_def)
  ultimately show ?thesis by simp
qed

lemma union_insert_subset:
  "A' \<subseteq> B \<union> T \<Longrightarrow> B \<subseteq> insert y A \<Longrightarrow> A' \<subseteq> A \<union> insert y T"
  by blast

lemma union_insert_eq:
  "A' = B \<union> T \<Longrightarrow> B = insert y A \<Longrightarrow> A' = A \<union> insert y T"
  by blast

lemma process_loop_years:
  assumes "process_loop L ts a = Inr a'"
  shows "fst ` set (yearly_volume a') = fst ` set (yearly_volume a) \<union> tweet_year L ` set ts
    \<and> fst ` set (hashtags_by_year a') \<subseteq> fst ` set (hashtags_by_year a) \<union> tweet_year L ` set ts
    \<and> fst ` set (mentions_by_year a') \<subseteq> fst ` set (mentions_by_year a) \<union> tweet_year L ` set ts
    \<and> fst ` set (domains_by_year a') \<subseteq> fst ` set (domains_by_year a) \<union> tweet_year L ` set ts"
  using assms
proof (induction ts arbitrary: a)
  case Nil
  then show ?case by simp
next
  case (Cons t ts)
  from Cons.prems obtain b where b: "process_tweet L t a = Inr b"
    and l: "process_loop L ts b = Inr a'"
    by (auto simp: rbind_eq_Inr)
  from b obtain tw dt ftext media fav rt where
    "subscript t ''tweet'' = Inr tw" and "created_at L tw = Inr dt"
    and y: "yearly_volume b =
           dict_upd (py_str_int (dt_year L dt))
             \<lparr>y_total = 0, y_original = 0, y_retweet = 0, y_with_media = 0,
              y_favorites = 0, y_retweet_count = 0\<rparr>
             (yearly_bump (startswith ftext ''RT @'') media fav rt) (yearly_volume a)"
    and h: "fst ` set (hashtags_by_year b)
           \<subseteq> insert (py_str_int (dt_year L dt)) (fst ` set (hashtags_by_year a))"
    and m: "fst ` set (mentions_by_year b)
           \<subseteq> insert (py_str_int (dt_year L dt)) (fst ` set (mentions_by_year a))"
    and d: "fst ` set (domains_by_year b)
           \<subseteq> insert (py_str_int (dt_year L dt)) (fst ` set (domains_by_year a))"
    by (rule process_tweet_step) blast
  then have ty: "tweet_year L t = py_str_int (dt_year L dt)" by (simp add: tweet_year_eq)
  have yb: "fst ` set (yearly_volume b) = insert (tweet_year L t) (fst ` set (yearly_volume a))"
    by (simp add: y ty dict_upd_keys)
  have img: "tweet_year L ` set (t # ts) = insert (tweet_year L t) (tweet_year L ` set ts)"
    by simp
  note ih = Cons.IH [OF l]
  have "fst ` set (yearly_volume a') = fst ` set (yearly_volume a) \<union> tweet_year L ` set (t # ts)"
    unfolding img using ih yb by (intro union_insert_eq) auto
  moreover have "fst ` set (hashtags_by_year a')
      \<subseteq> fst ` set (hashtags_by_year a) \<union> tweet_year L ` set (t # ts)"
    unfolding img ty using ih h by (intro union_insert_subset) auto
  moreover have "fst ` set (mentions_by_year a')
      \<subseteq> fst ` set (mentions_by_year a) \<union> tweet_year L ` set (t # ts)"
    unfolding img ty using ih m by (intro union_insert_subset) auto
  moreover have "fst ` set (domains_by_year a')
      \<subseteq> fst ` set (domains_by_year a) \<union> tweet_year L ` set (t # ts)"
    unfolding img ty using ih d by (intro union_insert_subset) auto
  ultimately show ?case by (intro conjI)
qed

lemma keys_map_values: "fst ` (\<lambda>(y, c). (y, g c)) ` set m = fst ` set m"
  by (simp add: image_image case_prod_unfold)

text \<open>
  Claim C10: in the report of every successful run, every year key of \<open>hashtags_by_year\<close>,
  \<open>mentions_by_year\<close> and \<open>domains_by_year\<close> is a key of \<open>yearly_volume\<close>: the keys of
  \<open>yearly_volume\<close> are exactly the years of the processed records, and a year enters a
  breakdown only with a record of that year.
\<close>

theorem breakdown_years_in_yearly_volume:
  assumes "process_tweets L tweets = Inr out"
  shows "fst ` set (out_yearly_volume out) = tweet_year L ` set tweets
    \<and> fst ` set (out_hashtags_by_year out) \<subseteq> fst ` set (out_yearly_volume out)
    \<and> fst ` set (out_mentions_by_year out) \<subseteq> fst ` set (out_yearly_volume out)
    \<and> fst ` set (out_domains_by_year out) \<subseteq> fst ` set (out_yearly_volume out)"
proof -
  from assms obtain a where a: "process_loop L tweets empty_acc = Inr a"
    and "out_yearly_volume out = yearly_volume a"
    and "out_hashtags_by_year out = map (\<lambda>(y, c). (y, most_common 20 c)) (hashtags_by_year a)"
    and "out_mentions_by_year out = map (\<lambda>(y, c). (y, most_common 20 c)) (mentions_by_year a)"
    and "out_domains_by_year out = map (\<lambda>(y, c). (y, most_common 20 c)) (domains_by_year a)"
    by (rule process_tweets_fields)
  moreover note process_loop_years [OF a]
  ultimately show ?thesis by (simp add: empty_acc_def keys_map_values)
qed

subsection \<open>Counters\<close>

lemma counter_incr_keys:
  "map fst (counter_incr (=) k c) = (if k \<in> fst ` set c then map fst c else map fst c @ [k])"
proof (induction c)
  case Nil
  show ?case by simp
next
  case (Cons kn c)
  then show ?case by (cases kn) force
qed

lemma counter_incr_map_of:
  "map_of (counter_incr (=) k c) =
     (map_of c)(k \<mapsto> (case map_of c k of None \<Rightarrow> 1 | Some n \<Rightarrow> n + 1))"
proof (induction c)
  case Nil
  show ?case by simp
next
  case (Cons kn c)
  then show ?case by (cases kn) (auto simp: fun_eq_iff)
qed

lemma fold_counter_keys_set:
  "fst ` set (fold (counter_incr (=)) xs c) = fst ` set c \<union> set xs"
proof (induction xs arbitrary: c)
  case Nil
  show ?case by simp
next
  case (Cons x xs)
  have "fst ` set (counter_incr (=) x c) = insert x (fst ` set c)"
    using arg_cong [OF counter_incr_keys [of x c], of set] by (auto split: if_splits)
  with Cons [of "counter_incr (=) x c"] show ?case by auto
qed

lemma fold_counter_distinct:
  "distinct (map fst c) \<Longrightarrow> distinct (map fst (fold (counter_incr (=)) xs c))"
proof (induction xs arbitrary: c)
  case Nil
  then show ?case by simp
next
  case (Cons x xs)
  from Cons.prems have "distinct (map fst (counter_incr (=) x c))"
    by (simp add: counter_incr_keys)
  from Cons.IH [OF this] show ?case by simp
qed

lemma fold_counter_map_of:
  "map_of (fold (counter_incr (=)) xs c) h =
     (if h \<in> set xs \<or> h \<in> fst ` set c
      then Some ((case map_of c h of None \<Rightarrow> 0 | Some n \<Rightarrow> n) + int (count_list xs h))
      else None)"
proof (induction xs arbitrary: c)
  case Nil
  show ?case by (auto simp: map_of_eq_None_iff split: option.splits)
next
  case (Cons x xs)
  have k: "fst ` set (counter_incr (=) x c) = insert x (fst ` set c)"
    using arg_cong [OF counter_incr_keys [of x c], of set] by (auto split: if_splits)
  show ?case
    by (simp add: Cons [of "counter_incr (=) x c"] k counter_incr_map_of split: option.splits)
qed

lemma fold_counter_items:
  assumes "(h, n) \<in> set (fold (counter_incr (=)) xs [])"
  shows "h \<in> set xs \<and> n = int (count_list xs h)"
proof -
  have "distinct (map fst (fold (counter_incr (=)) xs []))"
    by (rule fold_counter_distinct) simp
  with assms have "map_of (fold (counter_incr (=)) xs []) h = Some n" by simp
  then show ?thesis by (simp add: fold_counter_map_of split: if_splits)
qed

lemma first_index_less: "x \<in> set xs \<Longrightarrow> first_index xs x < length xs"
  by (induction xs) auto

lemma first_index_append:
  "first_index (xs @ ys) x = (if x \<in> set xs then first_index xs x else length xs + first_index ys x)"
  by (induction xs) auto

lemma fold_counter_order:
  "sorted_wrt (\<lambda>a b. first_index xs a < first_index xs b)
     (map fst (fold (counter_incr (=)) xs []))"
proof (induction xs rule: rev_induct)
  case Nil
  show ?case by simp
next
  case (snoc x xs)
  let ?c = "fold (counter_incr (=)) xs []"
  have keys: "set (map fst ?c) = set xs"
    using fold_counter_keys_set [of xs "[]"] by simp
  have old: "sorted_wrt (\<lambda>a b. first_index (xs @ [x]) a < first_index (xs @ [x]) b) (map fst ?c)"
    using snoc keys by (auto simp: first_index_append elim!: sorted_wrt_mono_rel [rotated])
  show ?case
  proof (cases "x \<in> set xs")
    case True
    with keys have "map fst (counter_incr (=) x ?c) = map fst ?c"
      by (simp add: counter_incr_keys)
    with old show ?thesis by simp
  next
    case False
    with keys have "map fst (counter_incr (=) x ?c) = map fst ?c @ [x]"
      by (simp add: counter_incr_keys)
    moreover have "\<forall>a \<in> set (map fst ?c). first_index (xs @ [x]) a < first_index (xs @ [x]) x"
      using keys False by (auto simp: first_index_append first_index_less)
    ultimately show ?thesis using old by (simp add: sorted_wrt_append)
  qed
qed

subsection \<open>The stable sort\<close>

lemma insort_key_stable_wrt:
  fixes f :: "'a \<Rightarrow> int"
  assumes "sorted_wrt (\<lambda>a b. f a < f b \<or> (f a = f b \<and> pos a < (pos b :: nat))) ys"
    and "\<forall>y \<in> set ys. pos x < pos y"
  shows "sorted_wrt (\<lambda>a b. f a < f b \<or> (f a = f b \<and> pos a < pos b)) (insort_key f x ys)"
  using assms by (induction ys) (auto simp: set_insort_key)

lemma sort_key_stable_wrt:
  fixes f :: "'a \<Rightarrow> int"
  assumes "sorted_wrt (\<lambda>a b. pos a < (pos b :: nat)) xs"
  shows "sorted_wrt (\<lambda>a b. f a < f b \<or> (f a = f b \<and> pos a < pos b)) (sort_key f xs)"
  using assms by (induction xs) (auto intro!: insort_key_stable_wrt)

subsection \<open>The global hashtag counter\<close>

lemma process_loop_hashtags:
  "process_loop L ts a = Inr a' \<Longrightarrow>
     all_hashtags a' = fold (counter_incr (=)) (observed_hashtags L ts) (all_hashtags a)"
proof (induction ts arbitrary: a)
  case Nil
  then show ?case by (simp add: observed_hashtags_def)
next
  case (Cons t ts)
  from Cons.prems obtain b where b: "process_tweet L t a = Inr b"
    and l: "process_loop L ts b = Inr a'"
    by (auto simp: rbind_eq_Inr)
  from b obtain tw hs where "subscript t ''tweet'' = Inr tw" and "hashtags_of L tw = Inr hs"
    and "all_hashtags b = fold (counter_incr (=)) hs (all_hashtags a)"
    by (rule process_tweet_step) blast
  then have "all_hashtags b = fold (counter_incr (=)) (tweet_hashtags L t) (all_hashtags a)"
    by (simp add: tweet_hashtags_eq)
  with Cons.IH [OF l] show ?case by (simp add: observed_hashtags_def)
qed

lemma all_hashtags_final:
  assumes "process_loop L tweets empty_acc = Inr a"
  shows "all_hashtags a = fold (counter_incr (=)) (observed_hashtags L tweets) []"
  using process_loop_hashtags [OF assms] by (simp add: empty_acc_def)

lemma counter_length:
  "length (fold (counter_incr (=)) xs []) = card (set xs)"
proof -
  let ?c = "fold (counter_incr (=)) xs []"
  have "distinct (map fst ?c)" by (rule fold_counter_distinct) simp
  then have "card (set (map fst ?c)) = length (map fst ?c)" by (rule distinct_card)
  moreover have "set (map fst ?c) = set xs" using fold_counter_keys_set [of xs "[]"] by simp
  ultimately show ?thesis by simp
qed

text \<open>
  Claim C8: in the report of every successful run, \<open>unique_hashtags\<close> is the number of
  distinct hashtag strings observed across all records, a hashtag string being the
  lowercased text of a hashtag entity.
\<close>

theorem unique_hashtags_distinct:
  assumes "process_tweets L tweets = Inr out"
  shows "unique_hashtags out = int (card (set (observed_hashtags L tweets)))"
proof -
  from assms obtain a where a: "process_loop L tweets empty_acc = Inr a"
    and u: "unique_hashtags out = int (length (all_hashtags a))"
    by (rule process_tweets_fields)
  show ?thesis by (simp add: u all_hashtags_final [OF a] counter_length)
qed

lemma most_common_ranking:
  fixes obs :: "'a list" and k :: nat
  defines "c \<equiv> fold (counter_incr (=)) obs []"
  defines "tp \<equiv> most_common k c"
  shows "length tp = min k (card (set obs))"
    and "sorted_wrt (\<lambda>x y. snd x \<ge> snd y) tp"
    and "distinct (map fst tp)"
    and "\<forall>(h, n) \<in> set tp. h \<in> set obs \<and> n = int (count_list obs h)"
    and "sorted_wrt (\<lambda>x y. ranks_before obs (fst x) (fst y)) tp"
    and "\<forall>h \<in> set obs. h \<notin> fst ` set tp \<longrightarrow> (\<forall>(h', n) \<in> set tp. ranks_before obs h' h)"
proof -
  let ?f = "\<lambda>kc :: 'a \<times> int. - snd kc"
  let ?pos = "\<lambda>kc :: 'a \<times> int. first_index obs (fst kc)"
  let ?full = "sort_key ?f c"
  let ?R = "\<lambda>x y :: 'a \<times> int. ranks_before obs (fst x) (fst y)"
  have tp: "tp = take k ?full" by (simp add: tp_def most_common_def)
  have items: "h \<in> set obs \<and> n = int (count_list obs h)" if "(h, n) \<in> set c" for h n
    using that unfolding c_def by (rule fold_counter_items)
  have dist: "distinct (map fst c)" unfolding c_def by (rule fold_counter_distinct) simp
  have "sorted_wrt (\<lambda>a b. first_index obs a < first_index obs b) (map fst c)"
    unfolding c_def by (rule fold_counter_order)
  then have "sorted_wrt (\<lambda>a b. ?pos a < ?pos b) c" by (simp add: sorted_wrt_map)
  then have "sorted_wrt (\<lambda>a b. ?f a < ?f b \<or> (?f a = ?f b \<and> ?pos a < ?pos b)) ?full"
    by (rule sort_key_stable_wrt)
  then have R: "sorted_wrt ?R ?full"
  proof (rule sorted_wrt_mono_rel [rotated])
    fix x y assume "x \<in> set ?full" and "y \<in> set ?full"
      and lt: "?f x < ?f y \<or> (?f x = ?f y \<and> ?pos x < ?pos y)"
    then have "snd x = int (count_list obs (fst x))" and "snd y = int (count_list obs (fst y))"
      using items [of "fst x" "snd x"] items [of "fst y" "snd y"] by simp_all
    with lt show "?R x y" by (auto simp: ranks_before_def)
  qed
  have full: "?full = tp @ drop k ?full" by (simp add: tp)
  show "length tp = min k (card (set obs))"
    by (simp add: tp c_def counter_length min.commute)
  have "sorted (map ?f ?full)" by (rule sorted_sort_key)
  then have "sorted_wrt (\<lambda>x y. ?f x \<le> ?f y) ?full" by (simp add: sorted_map)
  then have "sorted_wrt (\<lambda>x y. ?f x \<le> ?f y) tp" unfolding tp by (rule sorted_wrt_take)
  then show "sorted_wrt (\<lambda>x y. snd x \<ge> snd y) tp" by simp
  have "distinct (map fst ?full)" using dist by (simp add: distinct_map inj_on_def)
  then have "distinct (take k (map fst ?full))" by (rule distinct_take)
  then show "distinct (map fst tp)" by (simp add: tp take_map)
  have sub: "set tp \<subseteq> set c" unfolding tp using set_take_subset [of k ?full] by simp
  show "\<forall>(h, n) \<in> set tp. h \<in> set obs \<and> n = int (count_list obs h)"
    using sub items by blast
  show "sorted_wrt ?R tp" unfolding tp using R by (rule sorted_wrt_take)
  show "\<forall>h \<in> set obs. h \<notin> fst ` set tp \<longrightarrow> (\<forall>(h', n) \<in> set tp. ranks_before obs h' h)"
  proof (intro ballI impI)
    fix h x assume h: "h \<in> set obs" and n: "h \<notin> fst ` set tp" and x: "x \<in> set tp"
    from h have "map_of c h = Some (int (count_list obs h))"
      by (simp add: c_def fold_counter_map_of)
    then have "(h, int (count_list obs h)) \<in> set c" by (rule map_of_SomeD)
    then have "(h, int (count_list obs h)) \<in> set ?full" by simp
    then have "(h, int (count_list obs h)) \<in> set tp \<union> set (drop k ?full)"
      by (subst (asm) full) simp
    with n have d: "(h, int (count_list obs h)) \<in> set (drop k ?full)" by force
    from R have "sorted_wrt ?R (tp @ drop k ?full)" by (subst (asm) full)
    then have "\<forall>x \<in> set tp. \<forall>y \<in> set (drop k ?full). ?R x y"
      by (simp add: sorted_wrt_append)
    with x d have "?R x (h, int (count_list obs h))" by blast
    then show "case x of (h', n) \<Rightarrow> ranks_before obs h' h" by (cases x) simp
  qed
qed

text \<open>
  Claim C5: in the report of every successful run, \<open>top_hashtags\<close> has at most 50 entries,
  sorted by count descending, and it is the list of the 50 highest-count entries of the
  global hashtag counter, ties broken by first-seen order: its length is the smaller of 50
  and the number of distinct hashtags, its tags are distinct, each entry carries the number
  of times its tag was observed, the entries are in ranking order (higher count first, among
  equal counts first seen first), and every entry ranks before every observed hashtag that
  is left out.
\<close>

theorem top_hashtags_ranking:
  assumes "process_tweets L tweets = Inr out"
  shows "length (top_hashtags out) \<le> 50
    \<and> sorted_wrt (\<lambda>x y. snd x \<ge> snd y) (top_hashtags out)
    \<and> length (top_hashtags out) = min 50 (card (set (observed_hashtags L tweets)))
    \<and> distinct (map fst (top_hashtags out))
    \<and> (\<forall>(h, n) \<in> set (top_hashtags out).
          h \<in> set (observed_hashtags L tweets)
          \<and> n = int (count_list (observed_hashtags L tweets) h))
    \<and> sorted_wrt (\<lambda>x y. ranks_before (observed_hashtags L tweets) (fst x) (fst y))
          (top_hashtags out)
    \<and> (\<forall>h \<in> set (observed_hashtags L tweets). h \<notin> fst ` set (top_hashtags out) \<longrightarrow>
          (\<forall>(h', n) \<in> set (top_hashtags out). ranks_before (observed_hashtags L tweets) h' h))"
proof -
  from assms obtain a where a: "process_loop L tweets empty_acc = Inr a"
    and "top_hashtags out = most_common 50 (all_hashtags a)"
    by (rule process_tweets_fields)
  then have t: "top_hashtags out
      = most_common 50 (fold (counter_incr (=)) (observed_hashtags L tweets) [])"
    by (simp add: all_hashtags_final)
  from most_common_ranking(1) [where k = 50 and obs = "observed_hashtags L tweets"]
  have "length (top_hashtags out) \<le> 50" unfolding t by simp
  then show ?thesis
    unfolding t
    using most_common_ranking [where k = 50 and obs = "observed_hashtags L tweets"]
    by (intro conjI)
qed

subsection \<open>The loader\<close>

lemma index_of_None: "index_of c xs = None \<longleftrightarrow> c \<notin> set xs"
  by (induction xs) auto

lemma index_of_Some: "index_of c xs = Some i \<Longrightarrow> drop i xs = dropWhile (\<lambda>x. x \<noteq> c) xs"
  by (induction xs arbitrary: i) (auto split: if_splits)

lemma load_twitter_js_eq:
  "load_twitter_js loads content =
     (if CHR ''['' \<in> set content
      then (case loads (dropWhile (\<lambda>x. x \<noteq> CHR ''['') content) of
              None \<Rightarrow> Inl JSONDecodeError | Some v \<Rightarrow> Inr v)
      else Inl ValueError)"
proof (cases "index_of CHR ''['' content")
  case None
  then have "CHR ''['' \<notin> set content" by (simp add: index_of_None)
  with None show ?thesis by (simp add: load_twitter_js_def)
next
  case (Some i)
  then have "CHR ''['' \<in> set content" using index_of_None [of "CHR ''[''" content] by auto
  with Some index_of_Some [OF Some] show ?thesis by (simp add: load_twitter_js_def)
qed

lemma dropWhile_skip:
  "c \<notin> set before \<Longrightarrow> dropWhile (\<lambda>x. x \<noteq> c) (before @ c # rest) = c # rest"
  by (induction before) auto

text \<open>
  Claim C7: given the full text of the file, the loader returns the JSON value parsed from
  the part of the text that starts at the first \<^verbatim>\<open>[\<close>; it fails if and only if the text has
  no \<^verbatim>\<open>[\<close> or that part is not valid JSON (\<open>loads\<close> rejects it); and what stands before the
  first \<^verbatim>\<open>[\<close> has no influence on the result.
\<close>

theorem load_twitter_js_spec:
  "(load_twitter_js loads content = Inr v \<longleftrightarrow>
      CHR ''['' \<in> set content \<and> loads (dropWhile (\<lambda>x. x \<noteq> CHR ''['') content) = Some v)
   \<and> (isl (load_twitter_js loads content) \<longleftrightarrow>
      CHR ''['' \<notin> set content \<or> loads (dropWhile (\<lambda>x. x \<noteq> CHR ''['') content) = None)
   \<and> (CHR ''['' \<notin> set before \<longrightarrow>
      load_twitter_js loads (before @ CHR ''['' # rest) = load_twitter_js loads (CHR ''['' # rest))"
proof (intro conjI impI)
  show "load_twitter_js loads content = Inr v \<longleftrightarrow>
      CHR ''['' \<in> set content \<and> loads (dropWhile (\<lambda>x. x \<noteq> CHR ''['') content) = Some v"
    by (auto simp: load_twitter_js_eq split: option.splits)
  show "isl (load_twitter_js loads content) \<longleftrightarrow>
      CHR ''['' \<notin> set content \<or> loads (dropWhile (\<lambda>x. x \<noteq> CHR ''['') content) = None"
    by (auto simp: load_twitter_js_eq split: option.splits)
  assume "CHR ''['' \<notin> set before"
  then show "load_twitter_js loads (before @ CHR ''['' # rest)
      = load_twitter_js loads (CHR ''['' # rest)"
    by (simp add: load_twitter_js_eq dropWhile_skip)
qed

subsection \<open>Counts written as strings\<close>

lemma parse_dec_digits:
  "list_all is_digit s \<Longrightarrow> (s \<noteq> [] \<or> \<not> need) \<Longrightarrow>
     parse_dec need acc s = Some (foldl (\<lambda>a c. 10 * a + digit_val c) acc s)"
  by (induction s arbitrary: need acc) auto

lemma digit_not_space: "is_digit c \<Longrightarrow> \<not> is_space c"
  by (auto simp: is_digit_def is_space_def)

lemma digit_not_sign: "is_digit c \<Longrightarrow> c \<noteq> CHR ''-'' \<and> c \<noteq> CHR ''+''"
  by (auto simp: is_digit_def)

lemma strip_digits:
  assumes "list_all is_digit s"
  shows "rev (dropWhile is_space (rev (dropWhile is_space s))) = s"
proof -
  have a: "dropWhile is_space t = t" if "list_all is_digit t" for t
    using that by (cases t) (auto simp: digit_not_space)
  have "list_all is_digit (rev s)" using assms by (simp add: list_all_iff)
  with assms show ?thesis by (simp add: a)
qed

lemma filter_digits: "list_all is_digit s \<Longrightarrow> filter is_digit s = s"
  by (induction s) auto

lemma dec_literal_digits:
  assumes "s \<noteq> []" and "list_all is_digit s"
  shows "dec_literal s =
     (if length s \<le> 4300 then Some (foldl (\<lambda>a c. 10 * a + digit_val c) 0 s) else None)"
proof -
  have "parse_dec True 0 s = Some (foldl (\<lambda>a c. 10 * a + digit_val c) 0 s)"
    using assms by (intro parse_dec_digits) auto
  then show ?thesis
    by (simp add: dec_literal_def int_max_str_digits_def filter_digits [OF assms(2)])
qed

text \<open>
  \<^verbatim>\<open>int\<close> on a string of decimal digits: the integer that the string denotes if it has at
  most 4300 digits, and \<^verbatim>\<open>ValueError\<close> if it has more.
\<close>

lemma int_of_str_digits:
  assumes "s \<noteq> []" and "list_all is_digit s"
  shows "int_of_str s =
     (if length s \<le> 4300 then Some (int (foldl (\<lambda>a c. 10 * a + digit_val c) 0 s)) else None)"
proof -
  from assms obtain c cs where s: "s = c # cs" by (cases s) auto
  with assms have "is_digit c" by simp
  then have "c \<noteq> CHR ''-''" and "c \<noteq> CHR ''+''" using digit_not_sign by auto
  then have "int_of_str s = map_option int (dec_literal s)"
    unfolding int_of_str_def strip_digits [OF assms(2)] by (simp add: s)
  then show ?thesis by (simp add: dec_literal_digits [OF assms])
qed

subsection \<open>Records that differ in the way a count is written\<close>

lemma py_int_count_string: "count_string s \<Longrightarrow> py_int (JStr s) = Inr (dec_value s)"
  by (simp add: py_int_def count_string_def digit_string_def dec_value_def int_of_str_digits)

lemma py_int_long_digits:
  "digit_string s \<Longrightarrow> 4300 < length s \<Longrightarrow> py_int (JStr s) = Inl ValueError"
  by (simp add: py_int_def digit_string_def int_of_str_digits)

lemma py_int_int_count: "py_int (int_count v) = py_int v"
  by (cases v) (auto simp: int_count_def py_int_count_string, simp add: py_int_def)

lemma map_of_map_values:
  "map_of (map (\<lambda>(k, v). if P k then (k, g v) else (k, v)) kv) k
     = map_option (if P k then g else id) (map_of kv k)"
  by (induction kv) auto

lemma keys_map_cond: "fst \<circ> (\<lambda>(k, v). if P k then (k, g v) else (k, v)) = fst"
  by (auto simp: fun_eq_iff)

lemma subscript_tic:
  "k \<noteq> ''favorite_count'' \<Longrightarrow> k \<noteq> ''retweet_count'' \<Longrightarrow>
     subscript (tweet_int_counts tw) k = subscript tw k"
  by (cases tw) (auto simp: tweet_int_counts_def subscript_def map_of_map_values split: option.splits)

lemma py_get_tic:
  "k \<noteq> ''favorite_count'' \<Longrightarrow> k \<noteq> ''retweet_count'' \<Longrightarrow>
     py_get (tweet_int_counts tw) k d = py_get tw k d"
  by (cases tw) (auto simp: tweet_int_counts_def py_get_def map_of_map_values split: option.splits)

lemma py_get_tic_count:
  "k = ''favorite_count'' \<or> k = ''retweet_count'' \<Longrightarrow>
     rbind (py_get (tweet_int_counts tw) k (JInt 0)) (\<lambda>v. rbind (py_int v) f)
       = rbind (py_get tw k (JInt 0)) (\<lambda>v. rbind (py_int v) f)"
  by (cases tw)
    (auto simp: tweet_int_counts_def py_get_def map_of_map_values py_int_int_count
      split: option.splits)

lemma py_in_tic: "py_in k (tweet_int_counts tw) = py_in k tw"
  by (cases tw) (simp_all add: tweet_int_counts_def py_in_def keys_map_cond)

lemma created_at_tic: "created_at L (tweet_int_counts tw) = created_at L tw"
  by (simp add: created_at_def subscript_tic)

lemma full_text_tic: "full_text (tweet_int_counts tw) = full_text tw"
  by (simp add: full_text_def subscript_tic)

lemma entity_list_tic: "entity_list (tweet_int_counts tw) name = entity_list tw name"
  by (simp add: entity_list_def py_get_tic)

lemma has_media_tic: "has_media (tweet_int_counts tw) = has_media tw"
  by (simp add: has_media_def py_in_tic entity_list_tic cong: if_cong)

lemma hashtags_of_tic: "hashtags_of L (tweet_int_counts tw) = hashtags_of L tw"
  by (simp add: hashtags_of_def entity_list_tic)

lemma mentions_of_tic: "mentions_of (tweet_int_counts tw) = mentions_of tw"
  by (simp add: mentions_of_def entity_list_tic)

lemma count_lang_tic: "count_lang (tweet_int_counts tw) a = count_lang tw a"
  by (simp add: count_lang_def py_get_tic)

lemma engagement_tic: "engagement (tweet_int_counts tw) = engagement tw"
  by (simp add: engagement_def py_get_tic_count)

lemma subscript_wic:
  "subscript (with_int_counts t) ''tweet''
     = rbind (subscript t ''tweet'') (\<lambda>tw. Inr (tweet_int_counts tw))"
  by (cases t) (auto simp: with_int_counts_def subscript_def map_of_map_values split: option.splits)

lemma rbind_assoc: "rbind (rbind m f) g = rbind m (\<lambda>x. rbind (f x) g)"
  by (cases m) simp_all

lemma process_tweet_wic: "process_tweet L (with_int_counts t) a = process_tweet L t a"
  by (simp add: process_tweet_def subscript_wic rbind_assoc created_at_tic full_text_tic
      has_media_tic hashtags_of_tic mentions_of_tic entity_list_tic count_lang_tic
      engagement_tic)

lemma process_loop_wic:
  "process_loop L (map with_int_counts ts) a = process_loop L ts a"
proof (induction ts arbitrary: a)
  case Nil
  show ?case by simp
next
  case (Cons t ts)
  have "process_loop L (map with_int_counts ts) = process_loop L ts"
    by (rule ext) (rule Cons.IH)
  then show ?case by (simp add: process_tweet_wic)
qed

lemma sorted_dates_wic: "sorted_dates L (map with_int_counts ts) = sorted_dates L ts"
proof -
  have "map_result (\<lambda>t. rbind (subscript t ''tweet'') (created_at L)) (map with_int_counts ts)
      = map_result (\<lambda>t. rbind (subscript t ''tweet'') (created_at L)) ts"
    by (induction ts) (simp_all add: subscript_wic rbind_assoc created_at_tic)
  then show ?thesis by (simp add: sorted_dates_def)
qed

lemma run_with_int_counts:
  "process_tweets L (map with_int_counts tweets) = process_tweets L tweets"
proof -
  have "build_output L (map with_int_counts tweets) = build_output L tweets"
    by (rule ext) (simp add: build_output_def sorted_dates_wic)
  then show ?thesis by (simp add: process_tweets_def process_loop_wic)
qed


subsection \<open>The use of the counts\<close>

text \<open>
  Lines 145 and 146 add \<^verbatim>\<open>int(tw.get("favorite_count", 0))\<close> and
  \<^verbatim>\<open>int(tw.get("retweet_count", 0))\<close> to the bucket of the record's year, and lines 152 and
  153 store the same integers in the projection of the record. Where the count of a record
  is absent, an integer or a string of at most 4300 decimal digits, these integers are the
  ones that the JSON value of the record denotes.
\<close>

lemma count_field_eq:
  "subscript t ''tweet'' = Inr tw \<Longrightarrow> py_get tw k d = Inr v \<Longrightarrow>
     v = (case count_field k t of Some x \<Rightarrow> x | None \<Rightarrow> d)"
  by (cases t; cases tw)
    (auto simp: subscript_def py_get_def count_field_def json_field_def split: option.splits)

lemma py_int_plain:
  assumes "subscript t ''tweet'' = Inr tw" and "py_get tw k (JInt 0) = Inr v"
    and "py_int v = Inr n" and "plain_count k t"
  shows "n = count_of k t"
proof -
  note v = count_field_eq [OF assms(1,2)]
  show ?thesis
  proof (cases "count_field k t")
    case None
    with v assms(3) show ?thesis by (simp add: count_of_def py_int_def)
  next
    case (Some x)
    with v have x: "x = v" by simp
    show ?thesis
    proof (cases v)
      case (JInt m)
      with Some x assms(3) show ?thesis by (simp add: count_of_def py_int_def)
    next
      case (JStr s)
      with Some x assms(4) have "count_string s" by (simp add: plain_count_def)
      from py_int_count_string [OF this] JStr Some x assms(3) show ?thesis
        by (simp add: count_of_def)
    qed (use Some x assms(4) in \<open>simp_all add: plain_count_def\<close>)
  qed
qed

lemma engagement_count_of:
  assumes "subscript t ''tweet'' = Inr tw" and "engagement tw = Inr (fav, rt)"
    and "plain_counts t"
  shows "fav = count_of ''favorite_count'' t" and "rt = count_of ''retweet_count'' t"
proof -
  from assms(2) obtain fc rc where "py_get tw ''favorite_count'' (JInt 0) = Inr fc"
    and "py_int fc = Inr fav" and "py_get tw ''retweet_count'' (JInt 0) = Inr rc"
    and "py_int rc = Inr rt"
    by (auto simp: engagement_def rbind_eq_Inr)
  with assms(1,3) show "fav = count_of ''favorite_count'' t" and "rt = count_of ''retweet_count'' t"
    by (auto simp: plain_counts_def intro: py_int_plain)
qed

lemma map_of_dict_upd:
  "map_of (dict_upd k d f m)
     = (map_of m)(k \<mapsto> f (case map_of m k of Some v \<Rightarrow> v | None \<Rightarrow> d))"
  by (induction m) (auto simp: fun_eq_iff)

lemma tweet_date_eq:
  "subscript t ''tweet'' = Inr tw \<Longrightarrow> created_at L tw = Inr dt \<Longrightarrow>
     tweet_date L t = strftime_ymd L dt"
  by (simp add: tweet_date_def)

lemma tweet_text_eq:
  "subscript t ''tweet'' = Inr tw \<Longrightarrow> full_text tw = Inr s \<Longrightarrow> tweet_text t = take 200 s"
  by (simp add: tweet_text_def)

lemma process_tweet_counts:
  assumes "process_tweet L t a = Inr a'" and "plain_counts t"
  shows "map top_of (records a') = map top_of (records a) @ [tweet_projection L t]"
    and "(case map_of (yearly_volume a') y of Some v \<Rightarrow> y_favorites v | None \<Rightarrow> 0)
           = (case map_of (yearly_volume a) y of Some v \<Rightarrow> y_favorites v | None \<Rightarrow> 0)
             + (if tweet_year L t = y then count_of ''favorite_count'' t else 0)"
    and "(case map_of (yearly_volume a') y of Some v \<Rightarrow> y_retweet_count v | None \<Rightarrow> 0)
           = (case map_of (yearly_volume a) y of Some v \<Rightarrow> y_retweet_count v | None \<Rightarrow> 0)
             + (if tweet_year L t = y then count_of ''retweet_count'' t else 0)"
proof -
  from assms(1) obtain tw dt ftext media fav rt n where
    tw: "subscript t ''tweet'' = Inr tw" and dt: "created_at L tw = Inr dt"
    and ft: "full_text tw = Inr ftext" and en: "engagement tw = Inr (fav, rt)"
    and y: "yearly_volume a' =
           dict_upd (py_str_int (dt_year L dt))
             \<lparr>y_total = 0, y_original = 0, y_retweet = 0, y_with_media = 0,
              y_favorites = 0, y_retweet_count = 0\<rparr>
             (yearly_bump (startswith ftext ''RT @'') media fav rt) (yearly_volume a)"
    and r: "records a' = records a @
           [\<lparr>r_date = strftime_ymd L dt, r_text = take 200 ftext,
             r_favorites = fav, r_retweets = rt, r_is_retweet = startswith ftext ''RT @'',
             r_has_media = media, r_url_count = n\<rparr>]"
    by (rule process_tweet_step) blast
  note c = engagement_count_of [OF tw en assms(2)]
  note yr = tweet_year_eq [OF tw dt]
  show "map top_of (records a') = map top_of (records a) @ [tweet_projection L t]"
    by (simp add: r top_of_def tweet_projection_def tweet_date_eq [OF tw dt]
        tweet_text_eq [OF tw ft] c)
  show "(case map_of (yearly_volume a') y of Some v \<Rightarrow> y_favorites v | None \<Rightarrow> 0)
           = (case map_of (yearly_volume a) y of Some v \<Rightarrow> y_favorites v | None \<Rightarrow> 0)
             + (if tweet_year L t = y then count_of ''favorite_count'' t else 0)"
    by (simp add: y map_of_dict_upd yr c yearly_bump_def Let_def split: option.splits)
  show "(case map_of (yearly_volume a') y of Some v \<Rightarrow> y_retweet_count v | None \<Rightarrow> 0)
           = (case map_of (yearly_volume a) y of Some v \<Rightarrow> y_retweet_count v | None \<Rightarrow> 0)
             + (if tweet_year L t = y then count_of ''retweet_count'' t else 0)"
    by (simp add: y map_of_dict_upd yr c yearly_bump_def Let_def split: option.splits)
qed

lemma year_sum_Cons:
  "year_sum L k (t # ts) y = (if tweet_year L t = y then count_of k t else 0) + year_sum L k ts y"
  by (simp add: year_sum_def)

lemma process_loop_counts:
  assumes "process_loop L ts a = Inr a'" and "list_all plain_counts ts"
  shows "map top_of (records a') = map top_of (records a) @ map (tweet_projection L) ts
    \<and> (\<forall>y. (case map_of (yearly_volume a') y of Some v \<Rightarrow> y_favorites v | None \<Rightarrow> 0)
           = (case map_of (yearly_volume a) y of Some v \<Rightarrow> y_favorites v | None \<Rightarrow> 0)
             + year_sum L ''favorite_count'' ts y)
    \<and> (\<forall>y. (case map_of (yearly_volume a') y of Some v \<Rightarrow> y_retweet_count v | None \<Rightarrow> 0)
           = (case map_of (yearly_volume a) y of Some v \<Rightarrow> y_retweet_count v | None \<Rightarrow> 0)
             + year_sum L ''retweet_count'' ts y)"
  using assms
proof (induction ts arbitrary: a)
  case Nil
  then show ?case by (simp add: year_sum_def)
next
  case (Cons t ts)
  from Cons.prems(1) obtain b where b: "process_tweet L t a = Inr b"
    and l: "process_loop L ts b = Inr a'"
    by (auto simp: rbind_eq_Inr)
  from Cons.prems(2) have p: "plain_counts t" and ps: "list_all plain_counts ts" by simp_all
  note s = process_tweet_counts [OF b p]
  from Cons.IH [OF l ps] show ?case by (simp add: s year_sum_Cons)
qed

lemma insort_key_map:
  "insort_key f (g x) (map g ys) = map g (insort_key (\<lambda>x. f (g x)) x ys)"
  by (induction ys) simp_all

lemma sort_key_map: "sort_key f (map g xs) = map g (sort_key (\<lambda>x. f (g x)) xs)"
  by (induction xs) (simp_all add: insort_key_map)

lemma top_tweets_fields:
  assumes "process_tweets L tweets = Inr out"
  obtains a where "process_loop L tweets empty_acc = Inr a"
    and "out_yearly_volume out = yearly_volume a"
    and "top_tweets_by_favorites out
           = take 20 (sort_key (\<lambda>r. - t_favorites r) (map top_of (records a)))"
    and "top_tweets_by_retweets out
           = take 20 (sort_key (\<lambda>r. - t_retweets r) (map top_of (records a)))"
proof -
  from assms obtain a where a: "process_loop L tweets empty_acc = Inr a"
    and y: "out_yearly_volume out = yearly_volume a"
    and f: "top_tweets_by_favorites out
           = map top_of (take 20 (sort_key (\<lambda>r. - r_favorites r) (records a)))"
    and r: "top_tweets_by_retweets out
           = map top_of (take 20 (sort_key (\<lambda>r. - r_retweets r) (records a)))"
    by (rule process_tweets_fields)
  have t: "t_favorites (top_of r) = r_favorites r" "t_retweets (top_of r) = r_retweets r" for r
    by (simp_all add: top_of_def)
  from a y show thesis
    by (rule that) (simp_all add: f r sort_key_map t take_map)
qed

text \<open>
  Claim C9, for strings of at most 4300 decimal digits: such a \<^verbatim>\<open>favorite_count\<close> or
  \<^verbatim>\<open>retweet_count\<close> is converted to the integer it denotes, and the aggregation uses it as
  it uses an integer-valued field. Writing these counts as integers in every record leaves
  the result of the run unchanged; and on every successful run over records whose counts
  are absent, integers or such strings, each year bucket of \<open>yearly_volume\<close> holds in
  \<open>favorites\<close> and \<open>retweet_count\<close> the sums of the denoted integers over the records of that
  year, and the two lists of top tweets are the first 20 of the records' projections, which
  carry the denoted integers, in descending order of the count, records with equal counts in
  input order.
\<close>

theorem string_counts_as_integers:
  "(count_string s \<longrightarrow> py_int (JStr s) = Inr (dec_value s))
   \<and> process_tweets L (map with_int_counts tweets) = process_tweets L tweets
   \<and> (process_tweets L tweets = Inr out \<and> list_all plain_counts tweets \<longrightarrow>
        (\<forall>(y, v) \<in> set (out_yearly_volume out).
            y_favorites v = year_sum L ''favorite_count'' tweets y
            \<and> y_retweet_count v = year_sum L ''retweet_count'' tweets y)
        \<and> top_tweets_by_favorites out
            = take 20 (sort_key (\<lambda>r. - t_favorites r) (map (tweet_projection L) tweets))
        \<and> top_tweets_by_retweets out
            = take 20 (sort_key (\<lambda>r. - t_retweets r) (map (tweet_projection L) tweets)))"
proof (intro conjI impI)
  show "py_int (JStr s) = Inr (dec_value s)" if "count_string s"
    using that by (rule py_int_count_string)
  show "process_tweets L (map with_int_counts tweets) = process_tweets L tweets"
    by (rule run_with_int_counts)
next
  assume h: "process_tweets L tweets = Inr out \<and> list_all plain_counts tweets"
  then obtain a where a: "process_loop L tweets empty_acc = Inr a"
    and y: "out_yearly_volume out = yearly_volume a"
    and f: "top_tweets_by_favorites out
           = take 20 (sort_key (\<lambda>r. - t_favorites r) (map top_of (records a)))"
    and r: "top_tweets_by_retweets out
           = take 20 (sort_key (\<lambda>r. - t_retweets r) (map top_of (records a)))"
    using top_tweets_fields by blast
  from h have p: "list_all plain_counts tweets" by simp
  note c = process_loop_counts [OF a p]
  from c have m: "map top_of (records a) = map (tweet_projection L) tweets"
    by (simp add: empty_acc_def)
  from process_loop_volumes [OF a] have d: "distinct (map fst (yearly_volume a))"
    by (simp add: empty_acc_def)
  show "\<forall>(y, v) \<in> set (out_yearly_volume out).
            y_favorites v = year_sum L ''favorite_count'' tweets y
            \<and> y_retweet_count v = year_sum L ''retweet_count'' tweets y"
  proof (clarify, intro conjI)
    fix y v
    assume "(y, v) \<in> set (out_yearly_volume out)"
    with d have v: "map_of (yearly_volume a) y = Some v" by (simp add: y)
    from c have "(case map_of (yearly_volume a) y of Some v \<Rightarrow> y_favorites v | None \<Rightarrow> 0)
        = year_sum L ''favorite_count'' tweets y"
      by (simp add: empty_acc_def)
    then show "y_favorites v = year_sum L ''favorite_count'' tweets y" by (simp add: v)
    from c have "(case map_of (yearly_volume a) y of Some v \<Rightarrow> y_retweet_count v | None \<Rightarrow> 0)
        = year_sum L ''retweet_count'' tweets y"
      by (simp add: empty_acc_def)
    then show "y_retweet_count v = year_sum L ''retweet_count'' tweets y" by (simp add: v)
  qed
  show "top_tweets_by_favorites out
            = take 20 (sort_key (\<lambda>r. - t_favorites r) (map (tweet_projection L) tweets))"
    by (simp add: f m)
  show "top_tweets_by_retweets out
            = take 20 (sort_key (\<lambda>r. - t_retweets r) (map (tweet_projection L) tweets))"
    by (simp add: r m)
qed
section \<open>Concrete runs\<close>

text \<open>
  The definitions are evaluated on concrete archives by rewriting. The continuation of a
  \<open>rbind\<close> is rewritten only after its first argument has become a value.
\<close>

lemmas eval_defs =
  process_tweets_def process_tweet_def build_output_def sorted_dates_def created_at_def
  full_text_def entity_list_def has_media_def hashtags_of_def mentions_of_def count_lang_def
  engagement_def count_hashtag_def count_domain_def monthly_bump_def yearly_bump_def
  subscript_def py_get_def py_in_def py_iter_def py_len_def py_int_def hashable_def py_eq_def
  py_key_def startswith_def most_common_def top_of_def empty_acc_def mk_tweet_def
  url_entity_def Let_def

lemma ref_lib_simps:
  "strptime ref_lib = ref_strptime" "dt_year ref_lib = ref_year" "strftime_ym ref_lib = ref_ym"
  "strftime_ymd ref_lib = ref_ymd" "dt_instant ref_lib = ref_instant"
  "urlparse_netloc ref_lib = ref_netloc" "str_lower ref_lib = ref_lower"
  by (simp_all add: ref_lib_def)

lemma digit_char_evals:
  "digit_char 0 = CHR ''0''" "digit_char 1 = CHR ''1''" "digit_char 2 = CHR ''2''"
  "digit_char 3 = CHR ''3''" "digit_char 4 = CHR ''4''" "digit_char 5 = CHR ''5''"
  "digit_char 6 = CHR ''6''" "digit_char 7 = CHR ''7''" "digit_char 8 = CHR ''8''"
  "digit_char 9 = CHR ''9''"
  by code_simp+

lemma dec_str_small:
  "dec_str 0 = ''0''" "dec_str 1 = ''1''" "dec_str (Suc 0) = ''1''"
  "digit_char (Suc 0) = CHR ''1''"
  by code_simp+

lemma dec_str_numeral:
  "dec_str (numeral k) =
     (if numeral k < (10 :: nat) then [digit_char (numeral k)]
      else dec_str (numeral k div 10) @ [digit_char (numeral k mod 10)])"
  by (rule dec_str.simps)

lemmas date_defs =
  ref_lib_simps ref_year_def ref_ym_def ref_ymd_def ref_instant_def pad2_def py_str_int_def
  dec_str_numeral dec_str_small digit_char_evals

lemma ref_strptime_evals:
  "ref_strptime ''Wed Oct 10 20:19:24 +0000 2018''
     = Some \<lparr>d_year = 2018, d_month = 10, d_day = 10, d_hour = 20, d_minute = 19, d_second = 24\<rparr>"
  "ref_strptime ''Thu Oct 11 08:00:00 +0000 2018''
     = Some \<lparr>d_year = 2018, d_month = 10, d_day = 11, d_hour = 8, d_minute = 0, d_second = 0\<rparr>"
  "ref_strptime ''Tue Jan 01 09:30:00 +0000 2019''
     = Some \<lparr>d_year = 2019, d_month = 1, d_day = 1, d_hour = 9, d_minute = 30, d_second = 0\<rparr>"
  by code_simp+

lemma ref_text_evals:
  "ref_lower ''a'' = ''a''" "ref_lower ''B'' = ''b''" "ref_lower ''b'' = ''b''"
  "int_of_str ''12'' = Some 12" "int_of_str ''0'' = Some 0" "int_of_str ''7'' = Some 7"
  "url_domain ref_lib (JStr ''https://www.example.com/post?id=1'') = Some ''example.com''"
  "url_domain ref_lib (JStr ''https://www.reddit.com/r/history/'') = None"
  "url_domain ref_lib (JStr ''https://blog.www.example.org/2019/'') = Some ''blog.example.org''"
  by code_simp+

lemmas ref_evals = date_defs ref_strptime_evals ref_text_evals

lemma sample_run: "process_tweets ref_lib sample_tweets = Inr sample_report"
  by (simp add: sample_tweets_def sample_report_def eval_defs ref_evals cong: rbind_weak_cong)

lemma sample_observed: "observed_hashtags ref_lib sample_tweets = [''a'', ''b'', ''b'']"
  by (simp add: observed_hashtags_def tweet_hashtags_def hashtag_entities_def hashtag_text_def
      json_field_def sample_tweets_def mk_tweet_def ref_lib_simps ref_text_evals)

lemma sample_years: "map (tweet_year ref_lib) sample_tweets = [''2018'', ''2018'', ''2019'']"
  by (simp add: tweet_year_def sample_tweets_def eval_defs ref_evals cong: rbind_weak_cong)


subsection \<open>The domain filter\<close>

text \<open>
  What lines 102 to 109 count for one URL entity, for every behaviour of \<^verbatim>\<open>urlparse\<close>: the
  network location with every \<^verbatim>\<open>www.\<close> removed, unless that is empty or contains
  \<^verbatim>\<open>twitter.com\<close> or \<^verbatim>\<open>t.co\<close> as a substring.
\<close>

lemma url_domain_Some:
  "url_domain L e = Some d \<longleftrightarrow>
     (\<exists>s netloc. e = JStr s \<and> s \<noteq> [] \<and> urlparse_netloc L s = Some netloc
        \<and> d = str_replace ''www.'' '''' netloc \<and> d \<noteq> []
        \<and> \<not> str_in ''twitter.com'' d \<and> \<not> str_in ''t.co'' d)"
  by (cases e) (auto simp: url_domain_def py_truthy_def Let_def split: option.splits)

lemma count_urls_one:
  "py_get u ''url'' (JStr '''') = Inr d0 \<Longrightarrow> py_get u ''expanded_url'' d0 = Inr e \<Longrightarrow>
     count_urls L y [u] a n =
       (case url_domain L e of
          Some d \<Rightarrow> Inr (count_domain y d a, n + 1)
        | None \<Rightarrow> Inr (a, n))"
  by (simp split: option.splits)

lemma ref_netloc_evals:
  "ref_netloc ''https://www.reddit.com/r/history/'' = Some ''www.reddit.com''"
  "ref_netloc ''https://blog.www.example.org/2019/'' = Some ''blog.www.example.org''"
  by code_simp+

lemma count_evals:
  "count_string ''12''" "count_string ''0''" "count_string ''7''"
  "dec_value ''12'' = 12" "dec_value ''0'' = 0" "dec_value ''7'' = 7"
  by code_simp+

lemma sample_plain: "list_all plain_counts sample_tweets"
  by (simp add: plain_counts_def plain_count_def count_field_def json_field_def
      sample_tweets_def mk_tweet_def count_evals)

lemma long_count_evals:
  "digit_string long_count" "length long_count = 4301" "int_of_str long_count = None"
proof -
  have d: "list_all is_digit long_count"
    by (simp add: long_count_def list_all_iff is_digit_def)
  have n: "long_count \<noteq> []" by (simp add: long_count_def)
  from n d show "digit_string long_count" by (simp add: digit_string_def)
  show l: "length long_count = 4301" by (simp add: long_count_def)
  from int_of_str_digits [OF n d] l show "int_of_str long_count = None" by simp
qed

text \<open>
  Claim C1 says that a domain is discarded if and only if it is empty, is the platform's
  domain \<^verbatim>\<open>twitter.com\<close> or is the link shortener's domain \<^verbatim>\<open>t.co\<close>, and that every other
  domain is counted. The code tests \<^verbatim>\<open>"t.co" not in domain\<close>, which is a substring test:
  \<^verbatim>\<open>reddit.com\<close> contains \<^verbatim>\<open>t.co\<close>, so a record whose only URL is on \<^verbatim>\<open>www.reddit.com\<close> has no
  counted domain and does not count as a record with URLs.
\<close>

theorem reddit_domain_discarded:
  "urlparse_netloc ref_lib ''https://www.reddit.com/r/history/'' = Some ''www.reddit.com''
   \<and> str_in ''t.co'' ''reddit.com''
   \<and> (case process_tweets ref_lib reddit_tweets of
        Inr out \<Rightarrow>
          total_tweets out = 1 \<and> with_urls out = 0 \<and> top_domains out = []
          \<and> out_domains_by_year out = []
      | Inl e \<Rightarrow> False)"
  by (simp add: reddit_tweets_def eval_defs ref_evals ref_netloc_evals cong: rbind_weak_cong)

text \<open>
  Claim C2 says that the recorded domain is the host with only a leading \<^verbatim>\<open>www.\<close> removed,
  and that a \<^verbatim>\<open>www.\<close> elsewhere in the host is left intact. The code calls
  \<^verbatim>\<open>replace("www.", "")\<close>, which removes every occurrence: the host
  \<^verbatim>\<open>blog.www.example.org\<close> has no leading \<^verbatim>\<open>www.\<close> and is recorded as \<^verbatim>\<open>blog.example.org\<close>.
\<close>

theorem inner_www_removed:
  "urlparse_netloc ref_lib ''https://blog.www.example.org/2019/'' = Some ''blog.www.example.org''
   \<and> \<not> startswith ''blog.www.example.org'' ''www.''
   \<and> (case process_tweets ref_lib nested_www_tweets of
        Inr out \<Rightarrow>
          top_domains out = [(''blog.example.org'', 1)]
          \<and> out_domains_by_year out = [(''2019'', [(''blog.example.org'', 1)])]
      | Inl e \<Rightarrow> False)"
  by (simp add: nested_www_tweets_def eval_defs ref_evals ref_netloc_evals cong: rbind_weak_cong)

subsection \<open>A count of more than 4300 digits\<close>

text \<open>
  Claim C9 says that every \<^verbatim>\<open>favorite_count\<close> or \<^verbatim>\<open>retweet_count\<close> that is a string of
  decimal digits is converted to the corresponding integer. \<^verbatim>\<open>int\<close> converts a string of at
  most 4300 digits; on a string of 4301 digits it raises \<^verbatim>\<open>ValueError\<close>, and so does the
  aggregation of a record whose \<^verbatim>\<open>favorite_count\<close> is that string.
\<close>

theorem long_count_raises:
  "digit_string long_count \<and> length long_count = 4301
   \<and> py_int (JStr long_count) = Inl ValueError
   \<and> process_tweets ref_lib long_count_tweets = Inl ValueError"
  by (simp add: long_count_tweets_def long_count_evals eval_defs ref_evals
      cong: rbind_weak_cong)

subsection \<open>The theorems on the sample archive\<close>

theorem volume_totals_witness:
  "process_tweets ref_lib sample_tweets = Inr sample_report
   \<and> map (\<lambda>(y, v). (y, y_original v, y_retweet v, y_total v)) (out_yearly_volume sample_report)
       = [(''2018'', 1, 1, 2), (''2019'', 1, 0, 1)]
   \<and> map (\<lambda>(m, v). (m, m_original v, m_retweet v, m_total v)) (out_monthly_volume sample_report)
       = [(''2018-10'', 1, 1, 2), (''2019-01'', 1, 0, 1)]
   \<and> sum_list (map (\<lambda>kv. y_total (snd kv)) (out_yearly_volume sample_report))
       = total_tweets sample_report"
  using volume_totals [OF sample_run] sample_run by (simp add: sample_report_def)

theorem top_hashtags_ranking_witness:
  "process_tweets ref_lib sample_tweets = Inr sample_report
   \<and> observed_hashtags ref_lib sample_tweets = [''a'', ''b'', ''b'']
   \<and> top_hashtags sample_report = [(''b'', 2), (''a'', 1)]
   \<and> ranks_before (observed_hashtags ref_lib sample_tweets) ''b'' ''a''"
  using top_hashtags_ranking [OF sample_run] sample_run sample_observed
  by (simp add: sample_report_def ranks_before_def)

theorem totals_add_up_witness:
  "process_tweets ref_lib sample_tweets = Inr sample_report
   \<and> original_tweets sample_report + retweets sample_report = total_tweets sample_report
   \<and> total_tweets sample_report = 3"
  using totals_add_up [OF sample_run] sample_run by (simp add: sample_report_def sample_tweets_def)

theorem load_twitter_js_spec_witness:
  "CHR ''['' \<notin> set ''window.YTD.tweets.part0 = ''
   \<and> load_twitter_js loads_empty_array ''window.YTD.tweets.part0 = []'' = Inr (JArr [])
   \<and> load_twitter_js loads_empty_array ''window.YTD.tweets.part0 = []''
       = load_twitter_js loads_empty_array ''[]''
   \<and> isl (load_twitter_js loads_empty_array ''window.YTD.tweets.part0 = '')"
proof -
  note s = load_twitter_js_spec [where loads = loads_empty_array
      and content = "''window.YTD.tweets.part0 = []''" and v = "JArr []"
      and before = "''window.YTD.tweets.part0 = ''" and rest = "'']''"]
  have a: "CHR ''['' \<notin> set ''window.YTD.tweets.part0 = ''" by simp
  have b: "load_twitter_js loads_empty_array ''window.YTD.tweets.part0 = []'' = Inr (JArr [])"
    using conjunct1 [OF s] by (simp add: loads_empty_array_def)
  have c: "load_twitter_js loads_empty_array ''window.YTD.tweets.part0 = []''
       = load_twitter_js loads_empty_array ''[]''"
    using conjunct2 [OF conjunct2 [OF s]] a by simp
  have d: "isl (load_twitter_js loads_empty_array ''window.YTD.tweets.part0 = '')"
    using conjunct1 [OF conjunct2 [OF load_twitter_js_spec [where loads = loads_empty_array
      and content = "''window.YTD.tweets.part0 = ''"]]] by simp
  from a b c d show ?thesis by (intro conjI)
qed

theorem unique_hashtags_distinct_witness:
  "process_tweets ref_lib sample_tweets = Inr sample_report
   \<and> observed_hashtags ref_lib sample_tweets = [''a'', ''b'', ''b'']
   \<and> unique_hashtags sample_report = 2"
  using unique_hashtags_distinct [OF sample_run] sample_run sample_observed
  by (simp add: sample_report_def)

theorem string_counts_as_integers_witness:
  "count_string ''12'' \<and> py_int (JStr ''12'') = Inr 12
   \<and> process_tweets ref_lib (map with_int_counts sample_tweets) = Inr sample_report
   \<and> process_tweets ref_lib sample_tweets = Inr sample_report
   \<and> list_all plain_counts sample_tweets
   \<and> map (\<lambda>(y, v). (y, y_favorites v, y_retweet_count v)) (out_yearly_volume sample_report)
       = [(''2018'', 12, 10), (''2019'', 0, 0)]
   \<and> year_sum ref_lib ''favorite_count'' sample_tweets ''2018'' = 12
   \<and> year_sum ref_lib ''retweet_count'' sample_tweets ''2018'' = 10
   \<and> map t_favorites
        (take 20 (sort_key (\<lambda>r. - t_favorites r) (map (tweet_projection ref_lib) sample_tweets)))
       = [12, 0, 0]
   \<and> map t_retweets
        (take 20 (sort_key (\<lambda>r. - t_retweets r) (map (tweet_projection ref_lib) sample_tweets)))
       = [7, 3, 0]"
proof -
  note t = string_counts_as_integers [of "''12''" ref_lib sample_tweets sample_report]
  from t have a: "py_int (JStr ''12'') = Inr 12" by (simp add: count_evals)
  from t have b: "process_tweets ref_lib (map with_int_counts sample_tweets) = Inr sample_report"
    by (simp add: sample_run)
  from t sample_run sample_plain
  have y: "\<forall>(y, v) \<in> set (out_yearly_volume sample_report).
            y_favorites v = year_sum ref_lib ''favorite_count'' sample_tweets y
            \<and> y_retweet_count v = year_sum ref_lib ''retweet_count'' sample_tweets y"
    and f: "top_tweets_by_favorites sample_report
            = take 20 (sort_key (\<lambda>r. - t_favorites r)
                (map (tweet_projection ref_lib) sample_tweets))"
    and r: "top_tweets_by_retweets sample_report
            = take 20 (sort_key (\<lambda>r. - t_retweets r)
                (map (tweet_projection ref_lib) sample_tweets))"
    by blast+
  have c: "map (\<lambda>(y, v). (y, y_favorites v, y_retweet_count v)) (out_yearly_volume sample_report)
       = [(''2018'', 12, 10), (''2019'', 0, 0)]"
    by (simp add: sample_report_def)
  from y have d: "year_sum ref_lib ''favorite_count'' sample_tweets ''2018'' = 12"
    and e: "year_sum ref_lib ''retweet_count'' sample_tweets ''2018'' = 10"
    by (simp_all add: sample_report_def)
  have g: "map t_favorites
        (take 20 (sort_key (\<lambda>r. - t_favorites r) (map (tweet_projection ref_lib) sample_tweets)))
       = [12, 0, 0]"
    unfolding f [symmetric] by (simp add: sample_report_def)
  have h: "map t_retweets
        (take 20 (sort_key (\<lambda>r. - t_retweets r) (map (tweet_projection ref_lib) sample_tweets)))
       = [7, 3, 0]"
    unfolding r [symmetric] by (simp add: sample_report_def)
  from count_evals(1) a b sample_run sample_plain c d e g h show ?thesis by (intro conjI)
qed

theorem breakdown_years_in_yearly_volume_witness:
  "process_tweets ref_lib sample_tweets = Inr sample_report
   \<and> map (tweet_year ref_lib) sample_tweets = [''2018'', ''2018'', ''2019'']
   \<and> map fst (out_yearly_volume sample_report) = [''2018'', ''2019'']
   \<and> map fst (out_hashtags_by_year sample_report) = [''2018'']
   \<and> map fst (out_mentions_by_year sample_report) = [''2018'']
   \<and> map fst (out_domains_by_year sample_report) = [''2019'']"
  using breakdown_years_in_yearly_volume [OF sample_run] sample_run sample_years
  by (simp add: sample_report_def)

end
